theory Spec2Isabelle
  imports Main "HOL-Library.Sublist"
begin

section \<open>Data model\<close>

text \<open>
  The Dolphin installation orchestrator of \<^verbatim>\<open>src/dolphin/downloadDolphin.ts\<close>.
  Asynchronous functions are modelled in explicit state-passing style: a computation
  takes the world and returns either the thrown error or the result, with the new world.
\<close>

datatype DolphinLaunchType = NETPLAY | PLAYBACK

text \<open>A JavaScript \<^verbatim>\<open>Error\<close>; \<^verbatim>\<open>err.message\<close> is the selector.\<close>

datatype error = Error (message: string)

text \<open>A path is the list of its components, so \<^verbatim>\<open>path.join(a, b)\<close> is \<open>a @ [b]\<close>.\<close>

type_synonym path = "string list"

datatype node = Dir | File string

record inode =
  body :: node
  mode :: nat
  uid :: nat
  gid :: nat

type_synonym tree = "path \<Rightarrow> inode option"

record asset =
  name :: string
  browser_download_url :: string

record release =
  tag_name :: string
  assets :: "asset list"

text \<open>File-system calls, as they appear in the trace and as the fault oracle sees them.\<close>

datatype fsop =
    Remove path
  | Move path path
  | EnsureDir path
  | ExtractZip path
  | ExtractDmg path path
  | Readdir path
  | Chmod path nat
  | Chown path nat nat

datatype event =
    Log string
  | Progress string
  | ConsoleError string
  | Finished "string option"
  | ReleaseQuery string string
  | Download string
  | Spawn path
  | Fs fsop

text \<open>
  The world: the file system, and the history of everything the program did to its
  surroundings, each event with the file system as it was when the event happened.
\<close>

record world =
  files :: tree
  history :: "(event \<times> tree) list"

definition trace :: "world \<Rightarrow> event list" where
  "trace w = map fst (history w)"

text \<open>
  Everything the module consumes from outside. The answers of the surroundings are fixed
  for the duration of a run.
  \<^item> \<open>typeName\<close>: the string value of each \<^verbatim>\<open>DolphinLaunchType\<close> member (the enum is
    declared in \<^verbatim>\<open>./types\<close>); it is used as one path component and in messages.
  \<^item> \<open>findExe\<close>: Modelled from the spec: \<^verbatim>\<open>findDolphinExecutable\<close> of \<^verbatim>\<open>./util\<close> is
    not among the sources. The spec: "given InstallationKind and platform, returns the
    expected executable path by fixed, platform-specific layout convention; fails with
    NotFound if absent". It is taken as an arbitrary function of the kind and the
    current file system.
  \<^item> \<open>getLatestRelease\<close>: the release-metadata provider of \<^verbatim>\<open>../main/github\<close>.
  \<^item> \<open>focusedWindow\<close>: whether \<^verbatim>\<open>BrowserWindow.getFocusedWindow()\<close> returns a window.
  \<^item> \<open>fetch\<close>: what \<^verbatim>\<open>electron-dl\<close> does for a URL: the progress values reported
    (already formatted as percentages) and either an error or the bytes received.
  \<^item> \<open>spawnStdout\<close>: the standard output of \<^verbatim>\<open>spawnSync(path, ["--version"])\<close>,
    \<open>None\<close> when the process could not be started (\<^verbatim>\<open>stdout\<close> is null).
  \<^item> \<open>readZip\<close>, \<open>readDmg\<close>: the contents of an archive given its bytes, as a tree of
    paths relative to the archive root, or the error of a malformed archive.
  \<^item> \<open>fault\<close>: the operating-system errors (EPERM, EBUSY, ...) of file-system calls.
\<close>

record env =
  platform :: string
  userData :: path
  home :: path
  userInfo_uid :: nat
  userInfo_gid :: nat
  typeName :: "DolphinLaunchType \<Rightarrow> string"
  findExe :: "DolphinLaunchType \<Rightarrow> tree \<Rightarrow> error + path"
  getLatestRelease :: "string \<Rightarrow> string \<Rightarrow> error + release"
  focusedWindow :: bool
  fetch :: "string \<Rightarrow> string list \<times> (error + string)"
  spawnStdout :: "path \<Rightarrow> string option"
  readZip :: "string \<Rightarrow> error + tree"
  readDmg :: "string \<Rightarrow> error + tree"
  fault :: "fsop \<Rightarrow> error option"

section \<open>Asynchronous computations with exceptions\<close>

type_synonym 'a io = "world \<Rightarrow> (error + 'a) \<times> world"

definition ret :: "'a \<Rightarrow> 'a io" where
  "ret x w = (Inr x, w)"

definition throw :: "error \<Rightarrow> 'a io" where
  "throw e w = (Inl e, w)"

text \<open>\<^verbatim>\<open>const x = await m; f(x)\<close>: a rejected promise skips the rest.\<close>

definition andThen :: "'a io \<Rightarrow> ('a \<Rightarrow> 'b io) \<Rightarrow> 'b io" where
  "andThen m f w = (case m w of (Inl e, w') \<Rightarrow> (Inl e, w') | (Inr x, w') \<Rightarrow> f x w')"

text \<open>\<^verbatim>\<open>try { m } catch (err) { h(err) }\<close>\<close>

definition tryCatch :: "'a io \<Rightarrow> (error \<Rightarrow> 'a io) \<Rightarrow> 'a io" where
  "tryCatch m h w = (case m w of (Inl e, w') \<Rightarrow> h e w' | (Inr x, w') \<Rightarrow> (Inr x, w'))"

definition emit :: "event \<Rightarrow> unit io" where
  "emit e w = (Inr (), w\<lparr>history := history w @ [(e, files w)]\<rparr>)"

definition setFiles :: "tree \<Rightarrow> unit io" where
  "setFiles t w = (Inr (), w\<lparr>files := t\<rparr>)"

text \<open>A file-system call: it is recorded, then fails if the surroundings make it fail.\<close>

definition syscall :: "env \<Rightarrow> fsop \<Rightarrow> unit io" where
  "syscall env op =
     andThen (emit (Fs op)) (\<lambda>_.
       case fault env op of Some e \<Rightarrow> throw e | None \<Rightarrow> ret ())"

text \<open>The callback of \<^verbatim>\<open>assertDolphinInstallations\<close> (lines 17-19).\<close>

definition logDownloadInfo :: "string \<Rightarrow> unit io" where
  "logDownloadInfo msg = emit (Log msg)"

text \<open>How a path prints inside a message.\<close>

definition show_path :: "path \<Rightarrow> string" where
  "show_path p = concat (map (\<lambda>c. ''/'' @ c) p)"

text \<open>\<^verbatim>\<open>`${err}`\<close> for an \<^verbatim>\<open>Error\<close>.\<close>

definition show_error :: "error \<Rightarrow> string" where
  "show_error e = ''Error: '' @ message e"

section \<open>Release resolution (lines 79-108)\<close>

definition getLatestReleaseData :: "env \<Rightarrow> DolphinLaunchType \<Rightarrow> release io" where
  "getLatestReleaseData env ty =
     (let owner = ''project-slippi'';
          repo = ''Ishiiruka'' @ (if ty = PLAYBACK then ''-Playback'' else '''')
      in andThen (emit (ReleaseQuery owner repo)) (\<lambda>_.
           case getLatestRelease env owner repo of
             Inl e \<Rightarrow> throw e
           | Inr r \<Rightarrow> ret r))"

definition matchesPlatform :: "env \<Rightarrow> string \<Rightarrow> bool" where
  "matchesPlatform env releaseName =
     (if platform env = ''win32'' then suffix ''Win.zip'' releaseName
      else if platform env = ''darwin'' then suffix ''Mac.dmg'' releaseName
      else if platform env = ''linux'' then suffix ''Linux.zip'' releaseName
      else False)"

definition getLatestDolphinAsset :: "env \<Rightarrow> DolphinLaunchType \<Rightarrow> asset io" where
  "getLatestDolphinAsset env ty =
     andThen (getLatestReleaseData env ty) (\<lambda>release.
       case find (\<lambda>a. matchesPlatform env (name a)) (assets release) of
         None \<Rightarrow> throw (Error (''No release asset matched the current platform: '' @ platform env))
       | Some a \<Rightarrow> ret a)"

section \<open>Semantic versions (the \<^verbatim>\<open>semver\<close> package)\<close>

text \<open>
  \<^verbatim>\<open>lt(a, b)\<close> of the external \<^verbatim>\<open>semver\<close> package: \<^verbatim>\<open>new SemVer(a).compare(new SemVer(b)) < 0\<close>,
  after its strict grammar \<^verbatim>\<open>^v?MAJOR.MINOR.PATCH(-PRERELEASE)?(+BUILD)?$\<close> applied to the
  trimmed string. Numeric identifiers have no leading zero.

  A prerelease identifier is a JavaScript number when it consists of digits and its value
  is below \<^verbatim>\<open>Number.MAX_SAFE_INTEGER\<close>, and the string itself otherwise.
\<close>

datatype ident = Num nat | Alnum string

record semver =
  major :: nat
  minor :: nat
  patch :: nat
  prerelease :: "ident list"

definition isDigit :: "char \<Rightarrow> bool" where
  "isDigit c = (c \<in> set ''0123456789'')"

definition isIdChar :: "char \<Rightarrow> bool" where
  "isIdChar c =
     (c \<in> set ''0123456789abcdefghijklmnopqrstuvwxyzABCDEFGHIJKLMNOPQRSTUVWXYZ-'')"

definition isSpace :: "char \<Rightarrow> bool" where
  "isSpace c = (c \<in> set [CHR '' '', CHR 0x09, CHR 0x0A, CHR 0x0B, CHR 0x0C, CHR 0x0D])"

definition digitVal :: "char \<Rightarrow> nat" where
  "digitVal c = length (takeWhile (\<lambda>d. d \<noteq> c) ''0123456789'')"

text \<open>The value of a string of decimal digits.\<close>

definition decimal :: "string \<Rightarrow> nat" where
  "decimal s = foldl (\<lambda>n c. 10 * n + digitVal c) 0 s"

text \<open>
  \<^verbatim>\<open>+id\<close> on a string of digits is the double nearest to its value, ties to the even
  significand. Such a double is an integer, so it is kept as a natural number: a value
  below \<open>2 ^ 53\<close> is itself, a larger one is rounded to 53 significant bits. (A version
  has at most 256 characters, so the value is below \<open>2 ^ 1024\<close> and never rounds to
  infinity.)
\<close>

fun bitLength :: "nat \<Rightarrow> nat" where
  "bitLength n = (if n = 0 then 0 else Suc (bitLength (n div 2)))"

declare bitLength.simps [simp del]

definition toNumber :: "nat \<Rightarrow> nat" where
  "toNumber n =
     (if n < 2 ^ 53 then n
      else let e = bitLength n - 53; q = n div 2 ^ e; r = n mod 2 ^ e
           in if 2 ^ e < 2 * r \<or> (2 * r = 2 ^ e \<and> odd q) then (q + 1) * 2 ^ e else q * 2 ^ e)"

definition trim :: "string \<Rightarrow> string" where
  "trim s = rev (dropWhile isSpace (rev (dropWhile isSpace s)))"

text \<open>\<^verbatim>\<open>s.split(c)\<close>: always at least one piece, empty pieces kept.\<close>

fun splitOn :: "char \<Rightarrow> string \<Rightarrow> string list" where
  "splitOn c [] = [[]]"
| "splitOn c (x # xs) =
     (if x = c then [] # splitOn c xs
      else (case splitOn c xs of [] \<Rightarrow> [[x]] | piece # pieces \<Rightarrow> (x # piece) # pieces))"

definition splitFirst :: "char \<Rightarrow> string \<Rightarrow> string \<times> string option" where
  "splitFirst c s =
     (takeWhile (\<lambda>x. x \<noteq> c) s,
      case dropWhile (\<lambda>x. x \<noteq> c) s of [] \<Rightarrow> None | _ # r \<Rightarrow> Some r)"

text \<open>The test \<^verbatim>\<open>/^[0-9]+$/\<close>.\<close>

definition isNumeric :: "string \<Rightarrow> bool" where
  "isNumeric s = (s \<noteq> [] \<and> list_all isDigit s)"

text \<open>A numeric identifier \<^verbatim>\<open>0|[1-9][0-9]*\<close>, read by \<^verbatim>\<open>+m[i]\<close>.\<close>

definition parseNumeric :: "string \<Rightarrow> nat option" where
  "parseNumeric s =
     (if isNumeric s \<and> (s = ''0'' \<or> hd s \<noteq> CHR ''0'') then Some (toNumber (decimal s)) else None)"

text \<open>
  A prerelease identifier is a numeric identifier or \<^verbatim>\<open>[0-9]*[a-zA-Z-][a-zA-Z0-9-]*\<close>.
  When it is numeric and \<^verbatim>\<open>+id < MAX_SAFE_INTEGER\<close> the number is kept, otherwise the
  string.
\<close>

definition MAX_SAFE_INTEGER :: nat where
  "MAX_SAFE_INTEGER = 9007199254740991"

definition parsePreId :: "string \<Rightarrow> ident option" where
  "parsePreId s =
     (if s = [] \<or> \<not> list_all isIdChar s then None
      else if isNumeric s then
        (if s = ''0'' \<or> hd s \<noteq> CHR ''0''
         then Some (let num = toNumber (decimal s)
                    in if num < MAX_SAFE_INTEGER then Num num else Alnum s)
         else None)
      else Some (Alnum s))"

definition validBuild :: "string option \<Rightarrow> bool" where
  "validBuild b =
     (case b of None \<Rightarrow> True
      | Some s \<Rightarrow> list_all (\<lambda>i. i \<noteq> [] \<and> list_all isIdChar i) (splitOn CHR ''.'' s))"

definition parsePrerelease :: "string option \<Rightarrow> ident list option" where
  "parsePrerelease p =
     (case p of None \<Rightarrow> Some []
      | Some s \<Rightarrow>
          (let ids = map parsePreId (splitOn CHR ''.'' s)
           in if list_all (\<lambda>i. i \<noteq> None) ids then Some (map the ids) else None))"

text \<open>The match of the trimmed string against the grammar, with its groups read.\<close>

definition parseSemVer :: "string \<Rightarrow> semver option" where
  "parseSemVer version =
     (let s = trim version;
          s = (if s \<noteq> [] \<and> hd s = CHR ''v'' then tl s else s);
          (mainpre, build) = splitFirst CHR ''+'' s;
          (main, pre) = splitFirst CHR ''-'' mainpre
      in if \<not> validBuild build then None
         else case (map parseNumeric (splitOn CHR ''.'' main), parsePrerelease pre) of
           ([Some a, Some b, Some c], Some ids) \<Rightarrow>
             Some \<lparr>major = a, minor = b, patch = c, prerelease = ids\<rparr>
         | _ \<Rightarrow> None)"

definition new_SemVer :: "string \<Rightarrow> error + semver" where
  "new_SemVer version =
     (if length version > 256 then Inl (Error ''version is longer than 256 characters'')
      else case parseSemVer version of
        None \<Rightarrow> Inl (Error (''Invalid Version: '' @ version))
      | Some v \<Rightarrow>
          if major v > MAX_SAFE_INTEGER then Inl (Error ''Invalid major version'')
          else if minor v > MAX_SAFE_INTEGER then Inl (Error ''Invalid minor version'')
          else if patch v > MAX_SAFE_INTEGER then Inl (Error ''Invalid patch version'')
          else Inr v)"

text \<open>JavaScript's \<^verbatim>\<open>a < b\<close> on strings: lexicographic by character code.\<close>

fun strLess :: "string \<Rightarrow> string \<Rightarrow> bool" where
  "strLess [] [] = False"
| "strLess [] (y # ys) = True"
| "strLess (x # xs) [] = False"
| "strLess (x # xs) (y # ys) =
     ((of_char x :: nat) < of_char y \<or> (x = y \<and> strLess xs ys))"

text \<open>
  \<^verbatim>\<open>compareIdentifiers(a, b)\<close>: \<^verbatim>\<open>numeric.test\<close> holds of a number and of a string of
  digits, and two numeric identifiers are compared after \<^verbatim>\<open>a = +a; b = +b\<close>.
\<close>

definition numericTest :: "ident \<Rightarrow> bool" where
  "numericTest i = (case i of Num n \<Rightarrow> True | Alnum s \<Rightarrow> isNumeric s)"

definition unaryPlus :: "ident \<Rightarrow> nat" where
  "unaryPlus i = (case i of Num n \<Rightarrow> n | Alnum s \<Rightarrow> toNumber (decimal s))"

text \<open>An identifier as a string; a number prints in decimal.\<close>

fun showNat :: "nat \<Rightarrow> string" where
  "showNat n = (if n < 10 then [''0123456789'' ! n] else showNat (n div 10) @ [''0123456789'' ! (n mod 10)])"

declare showNat.simps [simp del]

definition idString :: "ident \<Rightarrow> string" where
  "idString i = (case i of Num n \<Rightarrow> showNat n | Alnum s \<Rightarrow> s)"

definition compareIdentifiers :: "ident \<Rightarrow> ident \<Rightarrow> int" where
  "compareIdentifiers a b =
     (let anum = numericTest a; bnum = numericTest b
      in if anum \<and> bnum then
           (if unaryPlus a = unaryPlus b then 0 else if unaryPlus a < unaryPlus b then - 1 else 1)
         else if a = b then 0
         else if anum \<and> \<not> bnum then - 1
         else if bnum \<and> \<not> anum then 1
         else if strLess (idString a) (idString b) then - 1 else 1)"

fun comparePreLoop :: "ident list \<Rightarrow> ident list \<Rightarrow> int" where
  "comparePreLoop [] [] = 0"
| "comparePreLoop (a # as) [] = 1"
| "comparePreLoop [] (b # bs) = - 1"
| "comparePreLoop (a # as) (b # bs) =
     (if a = b then comparePreLoop as bs else compareIdentifiers a b)"

definition comparePre :: "semver \<Rightarrow> semver \<Rightarrow> int" where
  "comparePre a b =
     (if prerelease a \<noteq> [] \<and> prerelease b = [] then - 1
      else if prerelease a = [] \<and> prerelease b \<noteq> [] then 1
      else if prerelease a = [] \<and> prerelease b = [] then 0
      else comparePreLoop (prerelease a) (prerelease b))"

definition compareMain :: "semver \<Rightarrow> semver \<Rightarrow> int" where
  "compareMain a b =
     (if major a < major b then - 1 else if major b < major a then 1
      else if minor a < minor b then - 1 else if minor b < minor a then 1
      else if patch a < patch b then - 1 else if patch b < patch a then 1
      else 0)"

definition semverCompare :: "semver \<Rightarrow> semver \<Rightarrow> int" where
  "semverCompare a b = (if compareMain a b \<noteq> 0 then compareMain a b else comparePre a b)"

definition lt :: "string \<Rightarrow> string \<Rightarrow> error + bool" where
  "lt v1 v2 =
     (case new_SemVer v1 of
        Inl e \<Rightarrow> Inl e
      | Inr a \<Rightarrow> (case new_SemVer v2 of
          Inl e \<Rightarrow> Inl e
        | Inr b \<Rightarrow> Inr (semverCompare a b < 0)))"



subsection \<open>Precedence as specified\<close>










section \<open>File system (\<^verbatim>\<open>fs-extra\<close>, \<^verbatim>\<open>adm-zip\<close>, \<^verbatim>\<open>extract-dmg\<close>, \<^verbatim>\<open>electron-dl\<close>)\<close>

definition getFiles :: "tree io" where
  "getFiles w = (Inr (files w), w)"

definition relativeTo :: "path \<Rightarrow> path \<Rightarrow> path option" where
  "relativeTo d p = (if prefix d p then Some (drop (length d) p) else None)"

definition newDir :: "env \<Rightarrow> inode" where
  "newDir env = \<lparr>body = Dir, mode = 493, uid = userInfo_uid env, gid = userInfo_gid env\<rparr>"

definition newFile :: "env \<Rightarrow> string \<Rightarrow> inode" where
  "newFile env bytes =
     \<lparr>body = File bytes, mode = 420, uid = userInfo_uid env, gid = userInfo_gid env\<rparr>"

definition isFile :: "inode option \<Rightarrow> bool" where
  "isFile n =
     (case n of None \<Rightarrow> False
      | Some i \<Rightarrow> (case body i of File _ \<Rightarrow> True | Dir \<Rightarrow> False))"

text \<open>\<^verbatim>\<open>mkdir -p\<close>: fails when a file is in the way, creates what is missing.\<close>

definition withDirs :: "env \<Rightarrow> path \<Rightarrow> tree \<Rightarrow> tree" where
  "withDirs env p t q = (if prefix q p \<and> t q = None then Some (newDir env) else t q)"

definition mkdirp :: "env \<Rightarrow> path \<Rightarrow> tree \<Rightarrow> error + tree" where
  "mkdirp env p t =
     (if list_ex (\<lambda>q. isFile (t q)) (prefixes p) then Inl (Error ''ENOTDIR: not a directory'')
      else Inr (withDirs env p t))"

definition rmrf :: "path \<Rightarrow> tree \<Rightarrow> tree" where
  "rmrf p t q = (if prefix p q then None else t q)"

definition rename :: "path \<Rightarrow> path \<Rightarrow> tree \<Rightarrow> tree" where
  "rename src dst t q =
     (case relativeTo dst q of
        Some r \<Rightarrow> t (src @ r)
      | None \<Rightarrow> if prefix src q then None else t q)"

text \<open>An archive laid over a directory: its entries replace what is there.\<close>

definition overlay :: "path \<Rightarrow> tree \<Rightarrow> tree \<Rightarrow> tree" where
  "overlay dst img t q =
     (case relativeTo dst q of
        Some r \<Rightarrow> (case img r of Some i \<Rightarrow> Some i | None \<Rightarrow> t q)
      | None \<Rightarrow> t q)"

definition fs_pathExists :: "path \<Rightarrow> bool io" where
  "fs_pathExists p = andThen getFiles (\<lambda>t. ret (t p \<noteq> None))"

text \<open>
  Modelled from the spec: \<^verbatim>\<open>fileExists\<close> of \<^verbatim>\<open>../main/fileExists\<close> is not among the
  sources. The spec: "if a file named asset.name already exists under cacheDir".
\<close>

definition fileExists :: "path \<Rightarrow> bool io" where
  "fileExists p = andThen getFiles (\<lambda>t. ret (t p \<noteq> None))"

definition findDolphinExecutable :: "env \<Rightarrow> DolphinLaunchType \<Rightarrow> path io" where
  "findDolphinExecutable env ty =
     andThen getFiles (\<lambda>t. case findExe env ty t of Inl e \<Rightarrow> throw e | Inr p \<Rightarrow> ret p)"

text \<open>\<^verbatim>\<open>fs.remove\<close>: recursive, and no error when the path is missing.\<close>

definition fs_remove :: "env \<Rightarrow> path \<Rightarrow> unit io" where
  "fs_remove env p =
     andThen (syscall env (Remove p)) (\<lambda>_.
     andThen getFiles (\<lambda>t. setFiles (rmrf p t)))"

definition fs_ensureDir :: "env \<Rightarrow> path \<Rightarrow> unit io" where
  "fs_ensureDir env p =
     andThen (syscall env (EnsureDir p)) (\<lambda>_.
     andThen getFiles (\<lambda>t. case mkdirp env p t of Inl e \<Rightarrow> throw e | Inr t1 \<Rightarrow> setFiles t1))"

text \<open>
  \<^verbatim>\<open>fs.move(src, dest)\<close> without \<^verbatim>\<open>overwrite\<close>: the source must exist, the destination's
  parent is created, and an existing destination is an error.
\<close>

definition fs_move :: "env \<Rightarrow> path \<Rightarrow> path \<Rightarrow> unit io" where
  "fs_move env src dst =
     andThen (syscall env (Move src dst)) (\<lambda>_.
     andThen getFiles (\<lambda>t.
       if t src = None then throw (Error ''ENOENT: no such file or directory'')
       else if prefix src dst then throw (Error ''Cannot move to a subdirectory of itself'')
       else case mkdirp env (butlast dst) t of
         Inl e \<Rightarrow> throw e
       | Inr t1 \<Rightarrow>
           andThen (setFiles t1) (\<lambda>_.
             if t1 dst \<noteq> None then throw (Error ''dest already exists.'')
             else setFiles (rename src dst t1))))"

definition fs_chmod :: "env \<Rightarrow> path \<Rightarrow> nat \<Rightarrow> unit io" where
  "fs_chmod env p m =
     andThen (syscall env (Chmod p m)) (\<lambda>_.
     andThen getFiles (\<lambda>t.
       case t p of
         None \<Rightarrow> throw (Error ''ENOENT: no such file or directory'')
       | Some i \<Rightarrow> setFiles (t(p \<mapsto> i\<lparr>mode := m\<rparr>))))"

definition fs_chown :: "env \<Rightarrow> path \<Rightarrow> nat \<Rightarrow> nat \<Rightarrow> unit io" where
  "fs_chown env p u g =
     andThen (syscall env (Chown p u g)) (\<lambda>_.
     andThen getFiles (\<lambda>t.
       case t p of
         None \<Rightarrow> throw (Error ''ENOENT: no such file or directory'')
       | Some i \<Rightarrow> setFiles (t(p \<mapsto> i\<lparr>uid := u, gid := g\<rparr>))))"

text \<open>Reading the downloaded artifact and parsing it as an archive.\<close>

definition readAsset :: "(string \<Rightarrow> error + tree) \<Rightarrow> path \<Rightarrow> tree io" where
  "readAsset parse assetPath =
     andThen getFiles (\<lambda>t.
       case t assetPath of
         None \<Rightarrow> throw (Error ''Invalid filename'')
       | Some i \<Rightarrow> (case body i of
           Dir \<Rightarrow> throw (Error ''Invalid filename'')
         | File bytes \<Rightarrow> (case parse bytes of Inl e \<Rightarrow> throw e | Inr img \<Rightarrow> ret img)))"

definition new_AdmZip :: "env \<Rightarrow> path \<Rightarrow> tree io" where
  "new_AdmZip env assetPath = readAsset (readZip env) assetPath"

definition extractAllTo :: "env \<Rightarrow> tree \<Rightarrow> path \<Rightarrow> unit io" where
  "extractAllTo env archive dst =
     andThen (syscall env (ExtractZip dst)) (\<lambda>_.
     andThen getFiles (\<lambda>t.
       case mkdirp env dst t of
         Inl e \<Rightarrow> throw e
       | Inr t1 \<Rightarrow> setFiles (overlay dst archive t1)))"

text \<open>
  \<^verbatim>\<open>extractDmg(filename, destination)\<close> refuses a file whose name does not end in
  \<^verbatim>\<open>.dmg\<close>, then mounts the image and copies its entries.
\<close>

definition extractDmg :: "env \<Rightarrow> path \<Rightarrow> path \<Rightarrow> unit io" where
  "extractDmg env assetPath dst =
     andThen (syscall env (ExtractDmg assetPath dst)) (\<lambda>_.
     andThen (if assetPath \<noteq> [] \<and> suffix ''.dmg'' (last assetPath) then ret ()
              else throw (Error ''Not a dmg file'')) (\<lambda>_.
     andThen (readAsset (readDmg env) assetPath) (\<lambda>img.
     andThen getFiles (\<lambda>t.
       case mkdirp env dst t of
         Inl e \<Rightarrow> throw e
       | Inr t1 \<Rightarrow> setFiles (overlay dst img t1)))))"

fun forEach :: "('a \<Rightarrow> unit io) \<Rightarrow> 'a list \<Rightarrow> unit io" where
  "forEach f [] = ret ()"
| "forEach f (x # xs) = andThen (f x) (\<lambda>_. forEach f xs)"

text \<open>
  \<^verbatim>\<open>download(win, url, {filename, directory, onProgress})\<close>: progress callbacks, then the
  file at \<^verbatim>\<open>directory/filename\<close>, or the error with no file written.
\<close>

definition download :: "env \<Rightarrow> string \<Rightarrow> string \<Rightarrow> path \<Rightarrow> (string \<Rightarrow> unit io) \<Rightarrow> unit io" where
  "download env url filename directory onProgress =
     andThen (emit (Download url)) (\<lambda>_.
     andThen (forEach (\<lambda>p. andThen (emit (Progress p)) (\<lambda>_. onProgress p)) (fst (fetch env url))) (\<lambda>_.
       case snd (fetch env url) of
         Inl e \<Rightarrow> throw e
       | Inr bytes \<Rightarrow>
           andThen getFiles (\<lambda>t. setFiles (t(directory @ [filename] \<mapsto> newFile env bytes)))))"

section \<open>Version check and download (lines 68-72, 110-136)\<close>

definition compareDolphinVersion :: "env \<Rightarrow> DolphinLaunchType \<Rightarrow> string \<Rightarrow> bool io" where
  "compareDolphinVersion env ty latestVersion =
     andThen (findDolphinExecutable env ty) (\<lambda>dolphinPath.
     andThen (emit (Spawn dolphinPath)) (\<lambda>_.
       case spawnStdout env dolphinPath of
         None \<Rightarrow> throw (Error ''Cannot read property toString of null'')
       | Some dolphinVersion \<Rightarrow>
           (case lt dolphinVersion latestVersion of Inl e \<Rightarrow> throw e | Inr b \<Rightarrow> ret b)))"

definition downloadLatestDolphin ::
  "env \<Rightarrow> DolphinLaunchType \<Rightarrow> (string \<Rightarrow> unit io) \<Rightarrow> path io" where
  "downloadLatestDolphin env ty log =
     andThen (getLatestDolphinAsset env ty) (\<lambda>asset.
     let downloadDir = userData env @ [''temp''] in
     andThen (fs_ensureDir env downloadDir) (\<lambda>_.
     let downloadLocation = downloadDir @ [name asset] in
     andThen (fileExists downloadLocation) (\<lambda>exists.
     andThen
       (if \<not> exists then
          andThen (log (''Downloading '' @ browser_download_url asset @ '' to ''
                        @ show_path downloadLocation)) (\<lambda>_.
            if focusedWindow env then
              andThen (download env (browser_download_url asset) (name asset) downloadDir
                        (\<lambda>percent. log (''Downloading... '' @ percent @ ''%''))) (\<lambda>_.
                log (''Successfully downloaded '' @ browser_download_url asset @ '' to ''
                     @ show_path downloadLocation))
            else log (''I dunno how we got here, but apparently there isn'' @ [CHR 0x27]
                      @ ''t a browser window /shrug''))
        else log (show_path downloadLocation @ '' already exists. Skipping download.''))
       (\<lambda>_. ret downloadLocation))))"

section \<open>Installation (lines 138-244)\<close>

definition installWin32 :: "env \<Rightarrow> path \<Rightarrow> (string \<Rightarrow> unit io) \<Rightarrow> path \<Rightarrow> unit io" where
  "installWin32 env assetPath log dolphinPath =
     andThen (log (''Extracting to: '' @ show_path dolphinPath)) (\<lambda>_.
     andThen (new_AdmZip env assetPath) (\<lambda>archive.
     extractAllTo env archive dolphinPath))"

text \<open>
  Lines 171-186. \<^verbatim>\<open>fs.readdir\<close> is given a callback, which deletes every entry of the
  directory except the application bundle; nothing it does is awaited and no error of it
  reaches the caller. An entry is deleted by \<^verbatim>\<open>unlink\<close>, and by \<^verbatim>\<open>removeSync\<close> when
  that fails, so it stays only when the removal itself fails. The callback touches only
  entries beside the bundle, which no later step reads or writes; its effect is placed
  where the call is made.
\<close>

definition removeExtras :: "env \<Rightarrow> path \<Rightarrow> tree \<Rightarrow> tree" where
  "removeExtras env d t q =
     (case relativeTo d q of
        Some (file # rest) \<Rightarrow>
          if file \<noteq> ''Slippi Dolphin.app'' \<and> t (d @ [file]) \<noteq> None
             \<and> fault env (Remove (d @ [file])) = None
          then None else t q
      | _ \<Rightarrow> t q)"

definition readdirCleanup :: "env \<Rightarrow> (string \<Rightarrow> unit io) \<Rightarrow> path \<Rightarrow> unit io" where
  "readdirCleanup env log d =
     andThen (emit (Fs (Readdir d))) (\<lambda>_.
     andThen getFiles (\<lambda>t.
       case fault env (Readdir d) of
         Some err \<Rightarrow> log (message err)
       | None \<Rightarrow>
           if t d = None then log ''ENOENT: no such file or directory''
           else setFiles (removeExtras env d t)))"

text \<open>\<^verbatim>\<open>dolphinPath + "_old"\<close>: the suffix lands on the last component.\<close>

definition backupLocation :: "path \<Rightarrow> path" where
  "backupLocation dolphinPath = butlast dolphinPath @ [last dolphinPath @ ''_old'']"

definition dolphinResourcesPath :: "path \<Rightarrow> path" where
  "dolphinResourcesPath dolphinPath = dolphinPath @ [''Slippi Dolphin.app'', ''Contents'', ''Resources'']"

definition binaryLocation :: "path \<Rightarrow> path" where
  "binaryLocation dolphinPath =
     dolphinPath @ [''Slippi Dolphin.app'', ''Contents'', ''MacOS'', ''Slippi Dolphin'']"

text \<open>Lines 160-186: move an existing installation aside, extract, clean up.\<close>

definition darwinStage :: "env \<Rightarrow> path \<Rightarrow> (string \<Rightarrow> unit io) \<Rightarrow> path \<Rightarrow> bool io" where
  "darwinStage env assetPath log dolphinPath =
     andThen (fs_pathExists (dolphinResourcesPath dolphinPath)) (\<lambda>alreadyInstalled.
     andThen
       (if alreadyInstalled then
          andThen (log (show_path (dolphinResourcesPath dolphinPath) @ '' already exists. Moving...'')) (\<lambda>_.
          fs_move env dolphinPath (backupLocation dolphinPath))
        else ret ()) (\<lambda>_.
     andThen (log (''Extracting to: '' @ show_path dolphinPath)) (\<lambda>_.
     andThen (extractDmg env assetPath dolphinPath) (\<lambda>_.
     andThen (readdirCleanup env log dolphinPath) (\<lambda>_.
     ret alreadyInstalled)))))"

text \<open>Lines 190-193: the four calls inside the \<^verbatim>\<open>try\<close>.\<close>

definition darwinChmodChown :: "env \<Rightarrow> path \<Rightarrow> unit io" where
  "darwinChmodChown env dolphinPath =
     andThen (fs_chmod env (dolphinPath @ [''Slippi Dolphin.app'']) 511) (\<lambda>_.
     andThen (fs_chown env (dolphinPath @ [''Slippi Dolphin.app''])
               (userInfo_uid env) (userInfo_gid env)) (\<lambda>_.
     andThen (fs_chmod env (binaryLocation dolphinPath) 511) (\<lambda>_.
     fs_chown env (binaryLocation dolphinPath) (userInfo_uid env) (userInfo_gid env))))"

text \<open>Lines 187-196: ownership and permissions, any error logged and dropped.\<close>

definition darwinFixPermissions ::
  "env \<Rightarrow> DolphinLaunchType \<Rightarrow> (string \<Rightarrow> unit io) \<Rightarrow> path \<Rightarrow> unit io" where
  "darwinFixPermissions env ty log dolphinPath =
     tryCatch (darwinChmodChown env dolphinPath)
       (\<lambda>err. log (''could not chmod/chown '' @ typeName env ty @ '' Dolphin'' @ [CHR 0x0A]
                    @ show_error err))"

text \<open>Lines 198-210: the backed-up \<^verbatim>\<open>User\<close> folder goes into the new bundle.\<close>

definition darwinMigrate :: "env \<Rightarrow> (string \<Rightarrow> unit io) \<Rightarrow> path \<Rightarrow> bool \<Rightarrow> unit io" where
  "darwinMigrate env log dolphinPath alreadyInstalled =
     (if alreadyInstalled then
        (let oldUserFolder = dolphinResourcesPath (backupLocation dolphinPath) @ [''User''];
             newUserFolder = dolphinResourcesPath dolphinPath @ [''User'']
         in andThen (fs_pathExists oldUserFolder) (\<lambda>oldExists.
            andThen
              (if oldExists then
                 andThen (log ''moving User folder...'') (\<lambda>_.
                 fs_move env oldUserFolder newUserFolder)
               else log ''no old User folder to move'') (\<lambda>_.
            fs_remove env (backupLocation dolphinPath))))
      else ret ())"

definition installDarwin ::
  "env \<Rightarrow> DolphinLaunchType \<Rightarrow> path \<Rightarrow> (string \<Rightarrow> unit io) \<Rightarrow> path \<Rightarrow> unit io" where
  "installDarwin env ty assetPath log dolphinPath =
     andThen (darwinStage env assetPath log dolphinPath) (\<lambda>alreadyInstalled.
     andThen (darwinFixPermissions env ty log dolphinPath) (\<lambda>_.
     darwinMigrate env log dolphinPath alreadyInstalled))"

definition installLinux ::
  "env \<Rightarrow> DolphinLaunchType \<Rightarrow> path \<Rightarrow> (string \<Rightarrow> unit io) \<Rightarrow> bool \<Rightarrow> path \<Rightarrow> unit io" where
  "installLinux env ty assetPath log cleanInstall dolphinPath =
     andThen
       (tryCatch
          (andThen (findDolphinExecutable env ty) (\<lambda>dolphinAppImagePath.
           andThen (fileExists dolphinAppImagePath) (\<lambda>exists.
             if exists then
               andThen (log (show_path dolphinAppImagePath @ '' already exists. Deleting...'')) (\<lambda>_.
               fs_remove env dolphinAppImagePath)
             else ret ())))
          (\<lambda>err. log ''No existing AppImage found'')) (\<lambda>_.
     andThen
       (if cleanInstall then
          (let userFolder = (if ty = NETPLAY then ''SlippiOnline'' else ''SlippiPlayback'')
           in fs_remove env (home env @ [''.config'', userFolder]))
        else ret ()) (\<lambda>_.
     andThen (new_AdmZip env assetPath) (\<lambda>archive.
     andThen (extractAllTo env archive dolphinPath) (\<lambda>_.
     andThen (findDolphinExecutable env ty) (\<lambda>dolphinAppImagePath.
     andThen (log ''Setting executable permissions...'') (\<lambda>_.
     fs_chmod env dolphinAppImagePath 493))))))"

definition installDolphin ::
  "env \<Rightarrow> DolphinLaunchType \<Rightarrow> path \<Rightarrow> (string \<Rightarrow> unit io) \<Rightarrow> bool \<Rightarrow> unit io" where
  "installDolphin env ty assetPath log cleanInstall =
     (let dolphinPath = userData env @ [typeName env ty] in
      andThen (if cleanInstall then fs_remove env dolphinPath else ret ()) (\<lambda>_.
        if platform env = ''win32'' then installWin32 env assetPath log dolphinPath
        else if platform env = ''darwin'' then installDarwin env ty assetPath log dolphinPath
        else if platform env = ''linux'' then installLinux env ty assetPath log cleanInstall dolphinPath
        else throw (Error (''Installing Netplay is not supported on this platform: ''
                           @ platform env))))"

section \<open>Orchestration (lines 21-66)\<close>

definition downloadAndInstallDolphin ::
  "env \<Rightarrow> DolphinLaunchType \<Rightarrow> (string \<Rightarrow> unit io) \<Rightarrow> bool \<Rightarrow> unit io" where
  "downloadAndInstallDolphin env ty log cleanInstall =
     andThen (downloadLatestDolphin env ty log) (\<lambda>downloadedAsset.
     andThen (log (''Installing '' @ typeName env ty @ '' Dolphin...'')) (\<lambda>_.
     andThen (installDolphin env ty downloadedAsset log cleanInstall) (\<lambda>_.
     log (''Finished '' @ typeName env ty @ '' installing''))))"

definition assertDolphinInstallation ::
  "env \<Rightarrow> DolphinLaunchType \<Rightarrow> (string \<Rightarrow> unit io) \<Rightarrow> unit io" where
  "assertDolphinInstallation env ty log =
     tryCatch
       (andThen (findDolphinExecutable env ty) (\<lambda>_.
        andThen (log (''Found existing '' @ typeName env ty @ '' Dolphin executable.'')) (\<lambda>_.
        andThen (log (''Checking if we need to update '' @ typeName env ty @ '' Dolphin'')) (\<lambda>_.
        andThen (getLatestReleaseData env ty) (\<lambda>data.
        let latestVersion = tag_name data in
        andThen (compareDolphinVersion env ty latestVersion) (\<lambda>isOutdated.
          if isOutdated then
            andThen (log (typeName env ty @ '' Dolphin installation is outdated. Downloading latest...'')) (\<lambda>_.
            downloadAndInstallDolphin env ty log False)
          else log ''No update found...''))))))
       (\<lambda>err.
          andThen (log (''Could not find '' @ typeName env ty @ '' Dolphin installation. Downloading...'')) (\<lambda>_.
          downloadAndInstallDolphin env ty log False))"

definition assertDolphinInstallations :: "env \<Rightarrow> unit io" where
  "assertDolphinInstallations env =
     tryCatch
       (andThen (assertDolphinInstallation env NETPLAY logDownloadInfo) (\<lambda>_.
        andThen (assertDolphinInstallation env PLAYBACK logDownloadInfo) (\<lambda>_.
        emit (Finished None))))
       (\<lambda>err.
          andThen (emit (ConsoleError (show_error err))) (\<lambda>_.
          emit (Finished (Some (message err)))))"

section \<open>A sample environment\<close>

text \<open>
  A small concrete environment and two concrete worlds, on which the definitions above
  can be run: a release with one asset per platform, an archive holding the application
  bundle, a Windows executable and a stray file, and a machine on which nothing fails.
\<close>

definition sampleDir :: inode where
  "sampleDir = \<lparr>body = Dir, mode = 493, uid = 0, gid = 0\<rparr>"

definition sampleFile :: "string \<Rightarrow> inode" where
  "sampleFile bytes = \<lparr>body = File bytes, mode = 420, uid = 0, gid = 0\<rparr>"

definition sampleArchive :: tree where
  "sampleArchive =
     [[''Slippi Dolphin.app''] \<mapsto> sampleDir,
      [''Slippi Dolphin.app'', ''Contents''] \<mapsto> sampleDir,
      [''Slippi Dolphin.app'', ''Contents'', ''MacOS''] \<mapsto> sampleDir,
      [''Slippi Dolphin.app'', ''Contents'', ''MacOS'', ''Slippi Dolphin''] \<mapsto> sampleFile ''new'',
      [''Slippi Dolphin.app'', ''Contents'', ''Resources''] \<mapsto> sampleDir,
      [''Dolphin.exe''] \<mapsto> sampleFile ''new'',
      [''README''] \<mapsto> sampleFile ''text'']"

definition sampleRelease :: release where
  "sampleRelease =
     \<lparr>tag_name = ''v2.10.0'',
      assets = [\<lparr>name = ''src.tar.gz'', browser_download_url = ''u0''\<rparr>,
                \<lparr>name = ''Win.zip'', browser_download_url = ''u1''\<rparr>,
                \<lparr>name = ''Mac.dmg'', browser_download_url = ''u2''\<rparr>,
                \<lparr>name = ''Linux.zip'', browser_download_url = ''u3''\<rparr>]\<rparr>"

definition sampleEnv :: "string \<Rightarrow> env" where
  "sampleEnv p =
     \<lparr>platform = p, userData = [''d''], home = [''h''], userInfo_uid = 501, userInfo_gid = 20,
      typeName = (\<lambda>ty. if ty = NETPLAY then ''netplay'' else ''playback''),
      findExe = (\<lambda>ty t.
        if t [''d'', if ty = NETPLAY then ''netplay'' else ''playback'', ''Dolphin.exe''] \<noteq> None
        then Inr [''d'', if ty = NETPLAY then ''netplay'' else ''playback'', ''Dolphin.exe'']
        else Inl (Error ''No Dolphin found'')),
      getLatestRelease = (\<lambda>owner repo. Inr sampleRelease),
      focusedWindow = True,
      fetch = (\<lambda>url. ([''50'', ''100''], Inr ''bytes'')),
      spawnStdout = (\<lambda>exe. Some ''2.9.0''),
      readZip = (\<lambda>bytes. Inr sampleArchive),
      readDmg = (\<lambda>bytes. Inr sampleArchive),
      fault = (\<lambda>op. None)\<rparr>"

definition emptyWorld :: world where
  "emptyWorld = \<lparr>files = Map.empty, history = []\<rparr>"

text \<open>
  A world with the downloaded artifact, as a zip archive at \<^verbatim>\<open>/a.zip\<close> and as a
  disk image at \<^verbatim>\<open>/a.dmg\<close>, and a Netplay installation that has a \<^verbatim>\<open>User\<close> folder
  with one file in it.
\<close>

definition installedWorld :: world where
  "installedWorld =
     \<lparr>files =
        [[''a.zip''] \<mapsto> sampleFile ''bytes'',
         [''a.dmg''] \<mapsto> sampleFile ''bytes'',
         [''d''] \<mapsto> sampleDir,
         [''d'', ''netplay''] \<mapsto> sampleDir,
         [''d'', ''netplay'', ''Dolphin.exe''] \<mapsto> sampleFile ''old'',
         [''d'', ''netplay'', ''Slippi Dolphin.app''] \<mapsto> sampleDir,
         [''d'', ''netplay'', ''Slippi Dolphin.app'', ''Contents''] \<mapsto> sampleDir,
         [''d'', ''netplay'', ''Slippi Dolphin.app'', ''Contents'', ''Resources''] \<mapsto> sampleDir,
         [''d'', ''netplay'', ''Slippi Dolphin.app'', ''Contents'', ''Resources'', ''User''] \<mapsto> sampleDir,
         [''d'', ''netplay'', ''Slippi Dolphin.app'', ''Contents'', ''Resources'', ''User'', ''cfg'']
           \<mapsto> sampleFile ''mine''],
      history = []\<rparr>"

text \<open>Two machines on which permission calls fail.\<close>

definition noPermissions :: "fsop \<Rightarrow> error option" where
  "noPermissions op =
     (case op of Chmod _ _ \<Rightarrow> Some (Error ''EPERM'') | Chown _ _ _ \<Rightarrow> Some (Error ''EPERM'') | _ \<Rightarrow> None)"

definition chmodFails :: "fsop \<Rightarrow> error option" where
  "chmodFails op = (case op of Chmod _ _ \<Rightarrow> Some (Error ''EPERM'') | _ \<Rightarrow> None)"

section \<open>Vocabulary for histories\<close>

definition isFinished :: "event \<Rightarrow> bool" where
  "isFinished e = (case e of Finished _ \<Rightarrow> True | _ \<Rightarrow> False)"

text \<open>
  \<open>steps I m P J\<close>: started in a file system satisfying \<open>I\<close>, the computation \<open>m\<close>
  only appends to the history, every entry it appends satisfies \<open>P\<close>, and it leaves a
  file system satisfying \<open>J\<close>, whether it returns or throws.
\<close>

definition steps ::
  "(tree \<Rightarrow> bool) \<Rightarrow> 'a io \<Rightarrow> (event \<times> tree \<Rightarrow> bool) \<Rightarrow> (tree \<Rightarrow> bool) \<Rightarrow> bool" where
  "steps I m P J =
     (\<forall>w. I (files w) \<longrightarrow>
        (\<exists>hs. history (snd (m w)) = history w @ hs \<and> list_all P hs) \<and> J (files (snd (m w))))"

abbreviation anyTree :: "tree \<Rightarrow> bool" where
  "anyTree \<equiv> (\<lambda>_. True)"

abbreviation notFinished :: "event \<times> tree \<Rightarrow> bool" where
  "notFinished \<equiv> (\<lambda>h. \<not> isFinished (fst h))"

text \<open>The world after some events, none of which touched the file system.\<close>

definition logged :: "event list \<Rightarrow> world \<Rightarrow> world" where
  "logged es w = w\<lparr>history := history w @ map (\<lambda>e. (e, files w)) es\<rparr>"

text \<open>
  The calls of the three darwin steps. Staging moves an old installation aside, extracts
  the disk image and asks for the directory listing; the permission step sets mode 777
  and the invoking user's ownership on the application bundle and on its inner
  executable; the migration moves the backed-up \<^verbatim>\<open>User\<close> folder and removes the backup.
  Each step also writes log lines.
\<close>

definition isStaging :: "path \<Rightarrow> path \<Rightarrow> event \<Rightarrow> bool" where
  "isStaging dolphinPath assetPath e =
     (case e of
        Log _ \<Rightarrow> True
      | Fs op \<Rightarrow> op = Move dolphinPath (backupLocation dolphinPath)
                 \<or> op = ExtractDmg assetPath dolphinPath
                 \<or> op = Readdir dolphinPath
      | _ \<Rightarrow> False)"

definition isPermissionStep :: "env \<Rightarrow> path \<Rightarrow> event \<Rightarrow> bool" where
  "isPermissionStep env dolphinPath e =
     (case e of
        Log _ \<Rightarrow> True
      | Fs op \<Rightarrow> op = Chmod (dolphinPath @ [''Slippi Dolphin.app'']) 511
                 \<or> op = Chown (dolphinPath @ [''Slippi Dolphin.app'']) (userInfo_uid env) (userInfo_gid env)
                 \<or> op = Chmod (binaryLocation dolphinPath) 511
                 \<or> op = Chown (binaryLocation dolphinPath) (userInfo_uid env) (userInfo_gid env)
      | _ \<Rightarrow> False)"

definition isMigrationStep :: "path \<Rightarrow> event \<Rightarrow> bool" where
  "isMigrationStep dolphinPath e =
     (case e of
        Log _ \<Rightarrow> True
      | Fs op \<Rightarrow> op = Move (dolphinResourcesPath (backupLocation dolphinPath) @ [''User''])
                          (dolphinResourcesPath dolphinPath @ [''User''])
                 \<or> op = Remove (backupLocation dolphinPath)
      | _ \<Rightarrow> False)"

text \<open>\<open>emits m e\<close>: whenever \<open>m\<close> returns, it has added the event \<open>e\<close> to the history.\<close>

definition emits :: "'a io \<Rightarrow> event \<Rightarrow> bool" where
  "emits m e =
     (\<forall>w x w'. m w = (Inr x, w') \<longrightarrow> (\<exists>hs. history w' = history w @ hs \<and> e \<in> fst ` set hs))"

definition isDownload :: "event \<Rightarrow> bool" where
  "isDownload e = (case e of Download _ \<Rightarrow> True | _ \<Rightarrow> False)"

text \<open>The number of downloads started so far.\<close>

abbreviation downloads :: "world \<Rightarrow> nat" where
  "downloads w \<equiv> length (filter isDownload (trace w))"

definition isExtract :: "event \<Rightarrow> bool" where
  "isExtract e =
     (case e of Fs (ExtractZip _) \<Rightarrow> True | Fs (ExtractDmg _ _) \<Rightarrow> True | _ \<Rightarrow> False)"

text \<open>Nothing exists at or below a path.\<close>

definition nothingAt :: "path \<Rightarrow> tree \<Rightarrow> bool" where
  "nothingAt p t = (\<forall>q. prefix p q \<longrightarrow> t q = None)"

text \<open>An extraction call, if this is one, found nothing at or below the root.\<close>

abbreviation stagedOnEmpty :: "path \<Rightarrow> event \<times> tree \<Rightarrow> bool" where
  "stagedOnEmpty root \<equiv> (\<lambda>h. isExtract (fst h) \<longrightarrow> nothingAt root (snd h))"

text \<open>What the progress callback of one download adds to the history.\<close>

definition progressEvents :: "(string \<Rightarrow> string) \<Rightarrow> string list \<Rightarrow> tree \<Rightarrow> (event \<times> tree) list" where
  "progressEvents g xs t = concat (map (\<lambda>p. [(Progress p, t), (Log (g p), t)]) xs)"

text \<open>
  \<open>ensures I m Q\<close>: when \<open>m\<close>, started in a file system satisfying \<open>I\<close>, returns
  \<open>x\<close>, the file system it leaves satisfies \<open>Q x\<close>.
\<close>

definition ensures :: "(tree \<Rightarrow> bool) \<Rightarrow> 'a io \<Rightarrow> ('a \<Rightarrow> tree \<Rightarrow> bool) \<Rightarrow> bool" where
  "ensures I m Q = (\<forall>w x w'. I (files w) \<longrightarrow> m w = (Inr x, w') \<longrightarrow> Q x (files w'))"

section \<open>Basic facts about computations\<close>

lemma andThen_Inr: "m w = (Inr x, w1) \<Longrightarrow> andThen m f w = f x w1"
  by (simp add: andThen_def)

lemma andThen_Inl: "m w = (Inl e, w1) \<Longrightarrow> andThen m f w = (Inl e, w1)"
  by (simp add: andThen_def)


lemma getLatestReleaseData_Inl:
  "getLatestRelease env ''project-slippi'' (''Ishiiruka'' @ (if ty = PLAYBACK then ''-Playback'' else '''')) = Inl e
   \<Longrightarrow> getLatestReleaseData env ty w =
       (Inl e, w\<lparr>history := history w @ [(ReleaseQuery ''project-slippi''
          (''Ishiiruka'' @ (if ty = PLAYBACK then ''-Playback'' else '''')), files w)]\<rparr>)"
  by (simp add: getLatestReleaseData_def Let_def andThen_def emit_def throw_def)

section \<open>Asset selection\<close>




section \<open>Version comparison\<close>




subsection \<open>The package's comparison is the specified precedence\<close>







subsection \<open>Printing a version and reading it back\<close>












lemma trim_id: "s \<noteq> [] \<Longrightarrow> \<not> isSpace (hd s) \<Longrightarrow> \<not> isSpace (last s) \<Longrightarrow> trim s = s"
proof -
  assume a: "s \<noteq> []" "\<not> isSpace (hd s)" "\<not> isSpace (last s)"
  then have 1: "dropWhile isSpace s = s" by (cases s) auto
  from a have "rev s \<noteq> []" "\<not> isSpace (hd (rev s))" by (auto simp: hd_rev)
  then have 2: "dropWhile isSpace (rev s) = rev s" by (cases "rev s") auto
  show ?thesis by (simp add: trim_def 1 2)
qed
















section \<open>Clean install\<close>

lemma fs_remove_ok:
  "fault env (Remove p) = None \<Longrightarrow>
   fs_remove env p w =
     (Inr (), \<lparr>files = rmrf p (files w), history = history w @ [(Fs (Remove p), files w)]\<rparr>)"
  by (simp add: fs_remove_def syscall_def andThen_def emit_def ret_def getFiles_def setFiles_def)

lemma fs_remove_fault:
  "fault env (Remove p) = Some e \<Longrightarrow>
   fs_remove env p w = (Inl e, w\<lparr>history := history w @ [(Fs (Remove p), files w)]\<rparr>)"
  by (simp add: fs_remove_def syscall_def andThen_def emit_def throw_def)

text \<open>
  C10. On a platform that is none of win32, darwin and linux, a clean install whose
  removal of the target root succeeds fails with the error naming the platform, and
  the world it leaves has nothing at or below the target root: when the root existed
  before, the file system has changed although the call failed.
\<close>

theorem cleanInstall_unsupported_platform:
  assumes "platform env \<notin> {''win32'', ''darwin'', ''linux''}"
      and "fault env (Remove (userData env @ [typeName env ty])) = None"
  shows "installDolphin env ty assetPath log True w =
           (Inl (Error (''Installing Netplay is not supported on this platform: '' @ platform env)),
            \<lparr>files = rmrf (userData env @ [typeName env ty]) (files w),
             history = history w @ [(Fs (Remove (userData env @ [typeName env ty])), files w)]\<rparr>)
         \<and> (\<forall>q. files (snd (installDolphin env ty assetPath log True w))
                   ((userData env @ [typeName env ty]) @ q) = None)
         \<and> (files w (userData env @ [typeName env ty]) \<noteq> None \<longrightarrow>
              files (snd (installDolphin env ty assetPath log True w)) \<noteq> files w)"
proof -
  let ?root = "userData env @ [typeName env ty]"
  have run: "installDolphin env ty assetPath log True w =
           (Inl (Error (''Installing Netplay is not supported on this platform: '' @ platform env)),
            \<lparr>files = rmrf ?root (files w),
             history = history w @ [(Fs (Remove ?root), files w)]\<rparr>)"
    using assms(1)
    by (simp add: installDolphin_def Let_def andThen_Inr [OF fs_remove_ok [OF assms(2)]] throw_def)
  have gone: "\<And>q. rmrf ?root (files w) (?root @ q) = None"
    by (simp add: rmrf_def)
  have "files w ?root \<noteq> None \<Longrightarrow> rmrf ?root (files w) \<noteq> files w"
  proof
    assume "files w ?root \<noteq> None" and "rmrf ?root (files w) = files w"
    then have "rmrf ?root (files w) ?root \<noteq> None" by simp
    then show False by (simp add: rmrf_def)
  qed
  with run gone show ?thesis by simp
qed

theorem cleanInstall_unsupported_platform_witness:
  "fault (sampleEnv ''freebsd'') (Remove [''d'', ''netplay'']) = None
   \<and> files installedWorld [''d'', ''netplay''] \<noteq> None
   \<and> fst (installDolphin (sampleEnv ''freebsd'') NETPLAY [''a.zip''] logDownloadInfo True installedWorld)
       = Inl (Error ''Installing Netplay is not supported on this platform: freebsd'')
   \<and> files (snd (installDolphin (sampleEnv ''freebsd'') NETPLAY [''a.zip''] logDownloadInfo True installedWorld))
        [''d'', ''netplay'', ''Slippi Dolphin.app''] = None
   \<and> files (snd (installDolphin (sampleEnv ''freebsd'') NETPLAY [''a.zip''] logDownloadInfo True installedWorld))
        \<noteq> files installedWorld"
proof -
  let ?env = "sampleEnv ''freebsd''"
  have p: "''freebsd'' \<notin> {''win32'', ''darwin'', ''linux''}"
    by simp
  have u: "userData ?env @ [typeName ?env NETPLAY] = [''d'', ''netplay'']"
    by (simp add: sampleEnv_def)
  have pl: "platform ?env = ''freebsd''"
    by (simp add: sampleEnv_def)
  have f: "fault ?env (Remove [''d'', ''netplay'']) = None"
    by (simp add: sampleEnv_def)
  have e: "files installedWorld [''d'', ''netplay''] \<noteq> None"
    by (simp add: installedWorld_def)
  note T = cleanInstall_unsupported_platform [of ?env NETPLAY "[''a.zip'']" logDownloadInfo installedWorld,
      unfolded u pl, OF p f]
  have r1: "fst (installDolphin ?env NETPLAY [''a.zip''] logDownloadInfo True installedWorld)
       = Inl (Error ''Installing Netplay is not supported on this platform: freebsd'')"
    by (simp add: conjunct1 [OF T])
  have r2: "files (snd (installDolphin ?env NETPLAY [''a.zip''] logDownloadInfo True installedWorld))
        ([''d'', ''netplay''] @ [''Slippi Dolphin.app'']) = None"
    by (rule spec [OF conjunct1 [OF conjunct2 [OF T]]])
  have r3: "files (snd (installDolphin ?env NETPLAY [''a.zip''] logDownloadInfo True installedWorld))
        \<noteq> files installedWorld"
    using conjunct2 [OF conjunct2 [OF T]] e by blast
  from f e r1 r2 r3 show ?thesis by simp
qed

section \<open>Running the model on concrete inputs\<close>

text \<open>
  Unfolding rules that fire only on a computation applied to a world, so that a run is
  evaluated step by step in the order of the program.
\<close>

lemmas run =
  ret_def throw_def andThen_def tryCatch_def emit_def setFiles_def getFiles_def
  syscall_def [THEN fun_cong] logDownloadInfo_def [THEN fun_cong]
  getLatestReleaseData_def [THEN fun_cong] getLatestDolphinAsset_def [THEN fun_cong]
  fs_pathExists_def [THEN fun_cong] fileExists_def [THEN fun_cong]
  findDolphinExecutable_def [THEN fun_cong] fs_remove_def [THEN fun_cong]
  fs_ensureDir_def [THEN fun_cong] fs_move_def [THEN fun_cong] fs_chmod_def [THEN fun_cong]
  fs_chown_def [THEN fun_cong] readAsset_def [THEN fun_cong] new_AdmZip_def [THEN fun_cong]
  extractAllTo_def [THEN fun_cong] extractDmg_def [THEN fun_cong] download_def [THEN fun_cong]
  readdirCleanup_def [THEN fun_cong] compareDolphinVersion_def [THEN fun_cong]
  downloadLatestDolphin_def [THEN fun_cong] installWin32_def [THEN fun_cong]
  darwinStage_def [THEN fun_cong] darwinChmodChown_def [THEN fun_cong]
  darwinFixPermissions_def [THEN fun_cong]
  darwinMigrate_def [THEN fun_cong] installDarwin_def [THEN fun_cong]
  installLinux_def [THEN fun_cong] installDolphin_def [THEN fun_cong]
  downloadAndInstallDolphin_def [THEN fun_cong] assertDolphinInstallation_def [THEN fun_cong]
  assertDolphinInstallations_def [THEN fun_cong]
  forEach.simps [THEN fun_cong]
  relativeTo_def newDir_def newFile_def isFile_def withDirs_def mkdirp_def rmrf_def rename_def
  overlay_def removeExtras_def backupLocation_def dolphinResourcesPath_def binaryLocation_def
  matchesPlatform_def show_path_def show_error_def prefixes_def suffix_def Let_def trace_def

lemma sampleEnv_sel:
  "platform (sampleEnv p) = p"
  "userData (sampleEnv p) = [''d'']"
  "home (sampleEnv p) = [''h'']"
  "userInfo_uid (sampleEnv p) = 501"
  "userInfo_gid (sampleEnv p) = 20"
  "typeName (sampleEnv p) ty = (if ty = NETPLAY then ''netplay'' else ''playback'')"
  "findExe (sampleEnv p) ty t =
     (if t [''d'', if ty = NETPLAY then ''netplay'' else ''playback'', ''Dolphin.exe''] \<noteq> None
      then Inr [''d'', if ty = NETPLAY then ''netplay'' else ''playback'', ''Dolphin.exe'']
      else Inl (Error ''No Dolphin found''))"
  "getLatestRelease (sampleEnv p) owner repo = Inr sampleRelease"
  "focusedWindow (sampleEnv p) = True"
  "fetch (sampleEnv p) url = ([''50'', ''100''], Inr ''bytes'')"
  "spawnStdout (sampleEnv p) exe = Some ''2.9.0''"
  "readZip (sampleEnv p) bytes = Inr sampleArchive"
  "readDmg (sampleEnv p) bytes = Inr sampleArchive"
  "fault (sampleEnv p) op = None"
  by (simp_all add: sampleEnv_def)

lemma sampleWorld_sel:
  "files emptyWorld q = None"
  "history emptyWorld = []"
  "history installedWorld = []"
  by (simp_all add: emptyWorld_def installedWorld_def)

lemma installedWorld_files:
  "files installedWorld q =
     [[''a.zip''] \<mapsto> sampleFile ''bytes'',
      [''a.dmg''] \<mapsto> sampleFile ''bytes'',
      [''d''] \<mapsto> sampleDir,
      [''d'', ''netplay''] \<mapsto> sampleDir,
      [''d'', ''netplay'', ''Dolphin.exe''] \<mapsto> sampleFile ''old'',
      [''d'', ''netplay'', ''Slippi Dolphin.app''] \<mapsto> sampleDir,
      [''d'', ''netplay'', ''Slippi Dolphin.app'', ''Contents''] \<mapsto> sampleDir,
      [''d'', ''netplay'', ''Slippi Dolphin.app'', ''Contents'', ''Resources''] \<mapsto> sampleDir,
      [''d'', ''netplay'', ''Slippi Dolphin.app'', ''Contents'', ''Resources'', ''User''] \<mapsto> sampleDir,
      [''d'', ''netplay'', ''Slippi Dolphin.app'', ''Contents'', ''Resources'', ''User'', ''cfg'']
        \<mapsto> sampleFile ''mine''] q"
  by (simp add: installedWorld_def)

lemma sampleArchive_app:
  "sampleArchive q =
     [[''Slippi Dolphin.app''] \<mapsto> sampleDir,
      [''Slippi Dolphin.app'', ''Contents''] \<mapsto> sampleDir,
      [''Slippi Dolphin.app'', ''Contents'', ''MacOS''] \<mapsto> sampleDir,
      [''Slippi Dolphin.app'', ''Contents'', ''MacOS'', ''Slippi Dolphin''] \<mapsto> sampleFile ''new'',
      [''Slippi Dolphin.app'', ''Contents'', ''Resources''] \<mapsto> sampleDir,
      [''Dolphin.exe''] \<mapsto> sampleFile ''new'',
      [''README''] \<mapsto> sampleFile ''text''] q"
  by (simp add: sampleArchive_def)

lemmas sample = sampleEnv_sel sampleWorld_sel installedWorld_files sampleArchive_app
  sampleDir_def sampleFile_def sampleRelease_def

section \<open>Rules for histories\<close>

lemma stepsI:
  assumes "\<And>w. I (files w) \<Longrightarrow> \<exists>hs. history (snd (m w)) = history w @ hs \<and> list_all P hs"
      and "\<And>w. I (files w) \<Longrightarrow> J (files (snd (m w)))"
  shows "steps I m P J"
  using assms by (simp add: steps_def)

lemma stepsD:
  assumes "steps I m P J" and "I (files w)"
  obtains hs where "history (snd (m w)) = history w @ hs" and "list_all P hs" and "J (files (snd (m w)))"
  using assms unfolding steps_def by blast

lemma steps_weaken:
  "steps I m P J \<Longrightarrow> (\<And>t. I' t \<Longrightarrow> I t) \<Longrightarrow> (\<And>t. J t \<Longrightarrow> J' t) \<Longrightarrow> (\<And>h. P h \<Longrightarrow> P' h)
   \<Longrightarrow> steps I' m P' J'"
  unfolding steps_def by (metis (mono_tags, lifting) list.pred_mono_strong)

lemma steps_ret: "(\<And>t. I t \<Longrightarrow> J t) \<Longrightarrow> steps I (ret x) P J"
  by (simp add: steps_def ret_def)

lemma steps_throw: "(\<And>t. I t \<Longrightarrow> J t) \<Longrightarrow> steps I (throw e) P J"
  by (simp add: steps_def throw_def)

lemma steps_emit: "(\<And>t. I t \<Longrightarrow> P (e, t) \<and> J t) \<Longrightarrow> steps I (emit e) P J"
  by (simp add: steps_def emit_def)

lemma steps_andThen:
  assumes m: "steps I m P K" and f: "\<And>x. steps K (f x) P J" and kj: "\<And>t. K t \<Longrightarrow> J t"
  shows "steps I (andThen m f) P J"
proof (rule stepsI)
  fix w :: world assume i: "I (files w)"
  from m i obtain hs where h: "history (snd (m w)) = history w @ hs" and p: "list_all P hs"
    and k: "K (files (snd (m w)))" by (rule stepsD)
  show "\<exists>hs. history (snd (andThen m f w)) = history w @ hs \<and> list_all P hs"
  proof (cases "m w")
    case (Pair r w1)
    show ?thesis
    proof (cases r)
      case (Inl e)
      with Pair h p show ?thesis by (auto simp: andThen_def)
    next
      case (Inr x)
      from f [of x] k Pair obtain hs2 where "history (snd (f x w1)) = history w1 @ hs2" "list_all P hs2"
        by (auto elim: stepsD)
      with Pair Inr h p show ?thesis by (auto simp: andThen_def)
    qed
  qed
  show "J (files (snd (andThen m f w)))"
  proof (cases "m w")
    case (Pair r w1)
    show ?thesis
    proof (cases r)
      case (Inl e)
      with Pair k kj show ?thesis by (auto simp: andThen_def)
    next
      case (Inr x)
      from f [of x] k Pair have "J (files (snd (f x w1)))"
        by (auto elim: stepsD)
      with Pair Inr show ?thesis by (auto simp: andThen_def)
    qed
  qed
qed

lemma steps_tryCatch:
  assumes m: "steps I m P K" and f: "\<And>e. steps K (h e) P J" and kj: "\<And>t. K t \<Longrightarrow> J t"
  shows "steps I (tryCatch m h) P J"
proof (rule stepsI)
  fix w :: world assume i: "I (files w)"
  from m i obtain hs where h: "history (snd (m w)) = history w @ hs" and p: "list_all P hs"
    and k: "K (files (snd (m w)))" by (rule stepsD)
  show "\<exists>hs. history (snd (tryCatch m h w)) = history w @ hs \<and> list_all P hs"
  proof (cases "m w")
    case (Pair r w1)
    show ?thesis
    proof (cases r)
      case (Inr x)
      with Pair h p show ?thesis by (auto simp: tryCatch_def)
    next
      case (Inl e)
      from f [of e] k Pair obtain hs2 where "history (snd (h e w1)) = history w1 @ hs2" "list_all P hs2"
        by (auto elim: stepsD)
      with Pair Inl h p show ?thesis by (auto simp: tryCatch_def)
    qed
  qed
  show "J (files (snd (tryCatch m h w)))"
  proof (cases "m w")
    case (Pair r w1)
    show ?thesis
    proof (cases r)
      case (Inr x)
      with Pair k kj show ?thesis by (auto simp: tryCatch_def)
    next
      case (Inl e)
      from f [of e] k Pair have "J (files (snd (h e w1)))"
        by (auto elim: stepsD)
      with Pair Inl show ?thesis by (auto simp: tryCatch_def)
    qed
  qed
qed

lemma steps_andThen_inv:
  "steps I m P I \<Longrightarrow> (\<And>x. steps I (f x) P I) \<Longrightarrow> steps I (andThen m f) P I"
  by (rule steps_andThen)

lemma steps_tryCatch_inv:
  "steps I m P I \<Longrightarrow> (\<And>e. steps I (h e) P I) \<Longrightarrow> steps I (tryCatch m h) P I"
  by (rule steps_tryCatch)

lemma steps_if:
  "(c \<Longrightarrow> steps I m1 P J) \<Longrightarrow> (\<not> c \<Longrightarrow> steps I m2 P J) \<Longrightarrow> steps I (if c then m1 else m2) P J"
  by simp

lemma steps_getFiles_then:
  assumes "\<And>t. I t \<Longrightarrow> steps (\<lambda>t'. t' = t) (f t) P J"
  shows "steps I (andThen getFiles f) P J"
  using assms unfolding steps_def by (simp add: andThen_def getFiles_def)

lemma steps_setFiles: "(\<And>t. I t \<Longrightarrow> J t') \<Longrightarrow> steps I (setFiles t') P J"
  by (simp add: steps_def setFiles_def)

lemma steps_syscall: "(\<And>t. I t \<Longrightarrow> P (Fs op, t) \<and> J t) \<Longrightarrow> steps I (syscall env op) P J"
  by (auto simp: steps_def syscall_def andThen_def emit_def throw_def ret_def split: option.split)


section \<open>The orchestrator emits one terminal event\<close>

lemmas prim_defs =
  ret_def throw_def andThen_def tryCatch_def emit_def setFiles_def getFiles_def
  syscall_def logDownloadInfo_def fs_pathExists_def fileExists_def findDolphinExecutable_def
  fs_remove_def fs_ensureDir_def fs_move_def fs_chmod_def fs_chown_def readAsset_def new_AdmZip_def
  extractAllTo_def extractDmg_def readdirCleanup_def getLatestReleaseData_def

lemmas prim_splits = option.split sum.split node.split if_split

lemma quiet_prims:
  "steps anyTree (logDownloadInfo msg) notFinished anyTree"
  "steps anyTree (fs_pathExists p) notFinished anyTree"
  "steps anyTree (fileExists p) notFinished anyTree"
  "steps anyTree (findDolphinExecutable env ty) notFinished anyTree"
  "steps anyTree (fs_remove env p) notFinished anyTree"
  "steps anyTree (fs_ensureDir env p) notFinished anyTree"
  "steps anyTree (fs_move env p q) notFinished anyTree"
  "steps anyTree (fs_chmod env p n) notFinished anyTree"
  "steps anyTree (fs_chown env p u g) notFinished anyTree"
  "steps anyTree (new_AdmZip env p) notFinished anyTree"
  "steps anyTree (extractAllTo env archive p) notFinished anyTree"
  "steps anyTree (extractDmg env p q) notFinished anyTree"
  "steps anyTree (readdirCleanup env logDownloadInfo p) notFinished anyTree"
  "steps anyTree (getLatestReleaseData env ty) notFinished anyTree"
  by (auto simp: steps_def prim_defs isFinished_def Let_def split: prim_splits)


lemma quiet_forEach:
  "(\<And>x. steps anyTree (f x) notFinished anyTree) \<Longrightarrow> steps anyTree (forEach f xs) notFinished anyTree"
  by (induction xs) (auto intro: steps_ret steps_andThen_inv)

lemmas quiet_rules = steps_andThen_inv steps_tryCatch_inv steps_if steps_ret steps_throw quiet_prims
  quiet_forEach

lemma quiet_emit: "\<not> isFinished e \<Longrightarrow> steps anyTree (emit e) notFinished anyTree"
  by (simp add: steps_emit)

lemma quiet_getLatestDolphinAsset:
  "steps anyTree (getLatestDolphinAsset env ty) notFinished anyTree"
  unfolding getLatestDolphinAsset_def
  by (intro quiet_rules) (auto intro: steps_ret steps_throw split: option.split)

lemma quiet_compareDolphinVersion:
  "steps anyTree (compareDolphinVersion env ty v) notFinished anyTree"
  unfolding compareDolphinVersion_def
  by (intro quiet_rules quiet_emit) (auto intro: steps_ret steps_throw simp: isFinished_def split: option.split sum.split)

lemma quiet_download:
  "steps anyTree (download env url f d (\<lambda>p. logDownloadInfo (g p))) notFinished anyTree"
  unfolding download_def
  by (intro quiet_rules quiet_emit)
     (auto intro!: quiet_rules simp: isFinished_def steps_def getFiles_def setFiles_def andThen_def throw_def
           split: sum.split)

lemma quiet_downloadLatestDolphin:
  "steps anyTree (downloadLatestDolphin env ty logDownloadInfo) notFinished anyTree"
  unfolding downloadLatestDolphin_def Let_def
  by (intro quiet_rules quiet_getLatestDolphinAsset quiet_download)

lemma quiet_installDolphin:
  "steps anyTree (installDolphin env ty a logDownloadInfo c) notFinished anyTree"
  unfolding installDolphin_def installWin32_def installDarwin_def installLinux_def
    darwinStage_def darwinFixPermissions_def darwinChmodChown_def darwinMigrate_def Let_def
  by (intro quiet_rules)

lemma quiet_downloadAndInstallDolphin:
  "steps anyTree (downloadAndInstallDolphin env ty logDownloadInfo c) notFinished anyTree"
  unfolding downloadAndInstallDolphin_def
  by (intro quiet_rules quiet_downloadLatestDolphin quiet_installDolphin)

lemma quiet_assertDolphinInstallation:
  "steps anyTree (assertDolphinInstallation env ty logDownloadInfo) notFinished anyTree"
  unfolding assertDolphinInstallation_def Let_def
  by (intro quiet_rules quiet_downloadAndInstallDolphin quiet_compareDolphinVersion)

lemma quiet_count:
  assumes "steps anyTree m notFinished anyTree"
  shows "length (filter isFinished (trace (snd (m w)))) = length (filter isFinished (trace w))"
proof -
  from assms obtain hs where h: "history (snd (m w)) = history w @ hs" and p: "list_all notFinished hs"
    by (auto elim: stepsD)
  from p have "filter isFinished (map fst hs) = []"
    by (induction hs) auto
  with h show ?thesis by (simp add: trace_def)
qed

text \<open>
  C2. \<open>assertDolphinInstallations\<close> runs the Netplay check to its end, then the
  Playback check from the world the first one left. When the Netplay check throws, the
  run ends in that very world with the error logged to the console and one terminal
  event carrying the error's message: nothing of the Playback check happens. When only
  the Playback check throws, likewise with its error; when neither throws, the terminal
  event carries null. In each case the run adds exactly one terminal event.
\<close>

theorem assertDolphinInstallations_fail_fast:
  "(case assertDolphinInstallation env NETPLAY logDownloadInfo w of
      (Inl e, w1) \<Rightarrow>
        assertDolphinInstallations env w =
          (Inr (), w1\<lparr>history := history w1 @ [(ConsoleError (show_error e), files w1),
                                               (Finished (Some (message e)), files w1)]\<rparr>)
    | (Inr u, w1) \<Rightarrow>
        (case assertDolphinInstallation env PLAYBACK logDownloadInfo w1 of
           (Inl e, w2) \<Rightarrow>
             assertDolphinInstallations env w =
               (Inr (), w2\<lparr>history := history w2 @ [(ConsoleError (show_error e), files w2),
                                                    (Finished (Some (message e)), files w2)]\<rparr>)
         | (Inr u', w2) \<Rightarrow>
             assertDolphinInstallations env w =
               (Inr (), w2\<lparr>history := history w2 @ [(Finished None, files w2)]\<rparr>)))
   \<and> length (filter isFinished (trace (snd (assertDolphinInstallations env w))))
       = length (filter isFinished (trace w)) + 1"
proof -
  let ?A = "\<lambda>ty. assertDolphinInstallation env ty logDownloadInfo"
  have shape: "(case ?A NETPLAY w of
      (Inl e, w1) \<Rightarrow>
        assertDolphinInstallations env w =
          (Inr (), w1\<lparr>history := history w1 @ [(ConsoleError (show_error e), files w1),
                                               (Finished (Some (message e)), files w1)]\<rparr>)
    | (Inr u, w1) \<Rightarrow>
        (case ?A PLAYBACK w1 of
           (Inl e, w2) \<Rightarrow>
             assertDolphinInstallations env w =
               (Inr (), w2\<lparr>history := history w2 @ [(ConsoleError (show_error e), files w2),
                                                    (Finished (Some (message e)), files w2)]\<rparr>)
         | (Inr u', w2) \<Rightarrow>
             assertDolphinInstallations env w =
               (Inr (), w2\<lparr>history := history w2 @ [(Finished None, files w2)]\<rparr>)))"
    by (simp add: assertDolphinInstallations_def tryCatch_def andThen_def emit_def
          split: prod.split sum.split)
  have n: "length (filter isFinished (trace (snd (?A NETPLAY w)))) = length (filter isFinished (trace w))"
    by (rule quiet_count [OF quiet_assertDolphinInstallation])
  have p: "\<And>w1. length (filter isFinished (trace (snd (?A PLAYBACK w1)))) = length (filter isFinished (trace w1))"
    by (rule quiet_count [OF quiet_assertDolphinInstallation])
  have count: "length (filter isFinished (trace (snd (assertDolphinInstallations env w))))
       = length (filter isFinished (trace w)) + 1"
  proof (cases "?A NETPLAY w")
    case (Pair r1 w1)
    note P1 = Pair
    from n P1 have n1: "length (filter isFinished (trace w1)) = length (filter isFinished (trace w))" by simp
    show ?thesis
    proof (cases r1)
      case (Inl e)
      with shape P1 n1 show ?thesis by (simp add: trace_def isFinished_def)
    next
      case (Inr u)
      show ?thesis
      proof (cases "?A PLAYBACK w1")
        case (Pair r2 w2)
        from p [of w1] Pair have n2: "length (filter isFinished (trace w2)) = length (filter isFinished (trace w1))"
          by simp
        from shape P1 Inr Pair n1 n2 show ?thesis
          by (cases r2) (simp_all add: trace_def isFinished_def)
      qed
    qed
  qed
  from shape count show ?thesis by (rule conjI)
qed

theorem assertDolphinInstallations_fail_fast_witness:
  "fst (assertDolphinInstallation (sampleEnv ''freebsd'') NETPLAY logDownloadInfo emptyWorld)
     = Inl (Error ''No release asset matched the current platform: freebsd'')
   \<and> trace (snd (assertDolphinInstallations (sampleEnv ''freebsd'') emptyWorld))
     = trace (snd (assertDolphinInstallation (sampleEnv ''freebsd'') NETPLAY logDownloadInfo emptyWorld))
       @ [ConsoleError ''Error: No release asset matched the current platform: freebsd'',
          Finished (Some ''No release asset matched the current platform: freebsd'')]
   \<and> trace (snd (assertDolphinInstallation (sampleEnv ''freebsd'') NETPLAY logDownloadInfo emptyWorld))
     = [Log ''Could not find netplay Dolphin installation. Downloading...'',
        ReleaseQuery ''project-slippi'' ''Ishiiruka'']
   \<and> length (filter isFinished (trace (snd (assertDolphinInstallations (sampleEnv ''freebsd'') emptyWorld)))) = 1"
proof -
  let ?env = "sampleEnv ''freebsd''"
  note T = assertDolphinInstallations_fail_fast [of ?env emptyWorld]
  have a: "fst (assertDolphinInstallation ?env NETPLAY logDownloadInfo emptyWorld)
     = Inl (Error ''No release asset matched the current platform: freebsd'')"
    by (simp add: run sample)
  have b: "trace (snd (assertDolphinInstallation ?env NETPLAY logDownloadInfo emptyWorld))
     = [Log ''Could not find netplay Dolphin installation. Downloading...'',
        ReleaseQuery ''project-slippi'' ''Ishiiruka'']"
    by (simp add: run sample)
  obtain r w1 where p: "assertDolphinInstallation ?env NETPLAY logDownloadInfo emptyWorld = (r, w1)"
    by (cases "assertDolphinInstallation ?env NETPLAY logDownloadInfo emptyWorld")
  with a have r: "r = Inl (Error ''No release asset matched the current platform: freebsd'')" by simp
  from conjunct1 [OF T] p r
  have c: "trace (snd (assertDolphinInstallations ?env emptyWorld))
     = trace w1 @ [ConsoleError ''Error: No release asset matched the current platform: freebsd'',
          Finished (Some ''No release asset matched the current platform: freebsd'')]"
    by (simp add: trace_def show_error_def)
  from conjunct2 [OF T]
  have d: "length (filter isFinished (trace (snd (assertDolphinInstallations ?env emptyWorld)))) = 1"
    by (simp add: trace_def sampleWorld_sel)
  from a b c d p show ?thesis by simp
qed

section \<open>The update decision\<close>

text \<open>
  C3, as the code has it. When the executable is not found, download-and-install runs
  at once, with no release query made for the decision. When the executable is found and
  the release query fails, or the executable's version output cannot be had or parsed,
  the failure is caught all the same: the "Could not find" line is logged and
  download-and-install runs from there, so only a failure of that attempt reaches the
  caller.
\<close>

theorem assertDolphinInstallation_catches_everything:
  fixes env ty w
  defines "owner \<equiv> ''project-slippi''"
      and "repo \<equiv> ''Ishiiruka'' @ (if ty = PLAYBACK then ''-Playback'' else '''')"
      and "found \<equiv> Log (''Found existing '' @ typeName env ty @ '' Dolphin executable.'')"
      and "checking \<equiv> Log (''Checking if we need to update '' @ typeName env ty @ '' Dolphin'')"
      and "notFound \<equiv> Log (''Could not find '' @ typeName env ty @ '' Dolphin installation. Downloading...'')"
  shows "(\<forall>e. findExe env ty (files w) = Inl e \<longrightarrow>
            assertDolphinInstallation env ty logDownloadInfo w =
              downloadAndInstallDolphin env ty logDownloadInfo False (logged [notFound] w))
       \<and> (\<forall>p e. findExe env ty (files w) = Inr p \<and> getLatestRelease env owner repo = Inl e \<longrightarrow>
            assertDolphinInstallation env ty logDownloadInfo w =
              downloadAndInstallDolphin env ty logDownloadInfo False
                (logged [found, checking, ReleaseQuery owner repo, notFound] w))
       \<and> (\<forall>p r. findExe env ty (files w) = Inr p \<and> getLatestRelease env owner repo = Inr r
              \<and> (spawnStdout env p = None
                  \<or> (\<exists>out e. spawnStdout env p = Some out \<and> lt out (tag_name r) = Inl e)) \<longrightarrow>
            assertDolphinInstallation env ty logDownloadInfo w =
              downloadAndInstallDolphin env ty logDownloadInfo False
                (logged [found, checking, ReleaseQuery owner repo, Spawn p, notFound] w))"
  unfolding owner_def repo_def found_def checking_def notFound_def
  by (auto simp: assertDolphinInstallation_def tryCatch_def andThen_def findDolphinExecutable_def
        getFiles_def throw_def ret_def logDownloadInfo_def emit_def getLatestReleaseData_def
        compareDolphinVersion_def logged_def Let_def)

theorem assertDolphinInstallation_catches_everything_witness:
  "findExe ((sampleEnv ''win32'')\<lparr>spawnStdout := \<lambda>_. None\<rparr>) NETPLAY (files installedWorld)
     = Inr [''d'', ''netplay'', ''Dolphin.exe'']
   \<and> getLatestRelease ((sampleEnv ''win32'')\<lparr>spawnStdout := \<lambda>_. None\<rparr>) ''project-slippi'' ''Ishiiruka''
     = Inr sampleRelease
   \<and> spawnStdout ((sampleEnv ''win32'')\<lparr>spawnStdout := \<lambda>_. None\<rparr>) [''d'', ''netplay'', ''Dolphin.exe''] = None
   \<and> assertDolphinInstallation ((sampleEnv ''win32'')\<lparr>spawnStdout := \<lambda>_. None\<rparr>) NETPLAY logDownloadInfo
        installedWorld
     = downloadAndInstallDolphin ((sampleEnv ''win32'')\<lparr>spawnStdout := \<lambda>_. None\<rparr>) NETPLAY logDownloadInfo
         False
         (logged [Log ''Found existing netplay Dolphin executable.'',
                  Log ''Checking if we need to update netplay Dolphin'',
                  ReleaseQuery ''project-slippi'' ''Ishiiruka'',
                  Spawn [''d'', ''netplay'', ''Dolphin.exe''],
                  Log ''Could not find netplay Dolphin installation. Downloading...''] installedWorld)"
proof -
  let ?env = "(sampleEnv ''win32'')\<lparr>spawnStdout := \<lambda>_. None\<rparr>"
  have a: "findExe ?env NETPLAY (files installedWorld) = Inr [''d'', ''netplay'', ''Dolphin.exe'']"
    by (simp add: sample)
  have b: "getLatestRelease ?env ''project-slippi'' ''Ishiiruka'' = Inr sampleRelease"
    by (simp add: sampleEnv_sel)
  have c: "spawnStdout ?env [''d'', ''netplay'', ''Dolphin.exe''] = None"
    by simp
  from assertDolphinInstallation_catches_everything [of ?env NETPLAY installedWorld] a b c
  show ?thesis
    by (simp add: sampleEnv_sel)
qed

text \<open>
  C3 as stated fails: with the executable found and no version output to read, the
  check returns normally after downloading and installing again. With the executable
  found and the release query failing, the "Could not find" line is logged and the
  download is started (its own release query is the second one in the history).
\<close>

theorem version_failure_reinstalls_counterexample:
  "findExe ((sampleEnv ''win32'')\<lparr>spawnStdout := \<lambda>_. None\<rparr>) NETPLAY (files installedWorld)
     = Inr [''d'', ''netplay'', ''Dolphin.exe'']
   \<and> spawnStdout ((sampleEnv ''win32'')\<lparr>spawnStdout := \<lambda>_. None\<rparr>) [''d'', ''netplay'', ''Dolphin.exe''] = None
   \<and> fst (assertDolphinInstallation ((sampleEnv ''win32'')\<lparr>spawnStdout := \<lambda>_. None\<rparr>) NETPLAY
             logDownloadInfo installedWorld) = Inr ()
   \<and> trace (snd (assertDolphinInstallation ((sampleEnv ''win32'')\<lparr>spawnStdout := \<lambda>_. None\<rparr>) NETPLAY
             logDownloadInfo installedWorld))
     = [Log ''Found existing netplay Dolphin executable.'',
        Log ''Checking if we need to update netplay Dolphin'',
        ReleaseQuery ''project-slippi'' ''Ishiiruka'',
        Spawn [''d'', ''netplay'', ''Dolphin.exe''],
        Log ''Could not find netplay Dolphin installation. Downloading...'',
        ReleaseQuery ''project-slippi'' ''Ishiiruka'',
        Fs (EnsureDir [''d'', ''temp'']),
        Log ''Downloading u1 to /d/temp/Win.zip'',
        Download ''u1'',
        Progress ''50'', Log ''Downloading... 50%'',
        Progress ''100'', Log ''Downloading... 100%'',
        Log ''Successfully downloaded u1 to /d/temp/Win.zip'',
        Log ''Installing netplay Dolphin...'',
        Log ''Extracting to: /d/netplay'',
        Fs (ExtractZip [''d'', ''netplay'']),
        Log ''Finished netplay installing'']
   \<and> trace (snd (assertDolphinInstallation
               ((sampleEnv ''win32'')\<lparr>getLatestRelease := \<lambda>_ _. Inl (Error ''offline'')\<rparr>) NETPLAY
               logDownloadInfo installedWorld))
     = [Log ''Found existing netplay Dolphin executable.'',
        Log ''Checking if we need to update netplay Dolphin'',
        ReleaseQuery ''project-slippi'' ''Ishiiruka'',
        Log ''Could not find netplay Dolphin installation. Downloading...'',
        ReleaseQuery ''project-slippi'' ''Ishiiruka'']"
  by (simp add: run sample)

section \<open>Order of the darwin steps\<close>

lemma steps_log: "(\<And>t. P (Log msg, t)) \<Longrightarrow> steps anyTree (logDownloadInfo msg) P anyTree"
  by (simp add: steps_def logDownloadInfo_def emit_def)

lemma steps_pure:
  "steps anyTree (fs_pathExists p) P anyTree"
  "steps anyTree (fileExists p) P anyTree"
  "steps anyTree (findDolphinExecutable env ty) P anyTree"
  "steps anyTree (new_AdmZip env p) P anyTree"
  by (auto simp: steps_def prim_defs split: prim_splits)

lemma steps_fs_remove: "(\<And>t. P (Fs (Remove p), t)) \<Longrightarrow> steps anyTree (fs_remove env p) P anyTree"
  by (auto simp: steps_def prim_defs split: prim_splits)

lemma steps_fs_ensureDir: "(\<And>t. P (Fs (EnsureDir p), t)) \<Longrightarrow> steps anyTree (fs_ensureDir env p) P anyTree"
  by (auto simp: steps_def prim_defs split: prim_splits)

lemma steps_fs_move: "(\<And>t. P (Fs (Move p q), t)) \<Longrightarrow> steps anyTree (fs_move env p q) P anyTree"
  by (auto simp: steps_def prim_defs split: prim_splits)

lemma steps_fs_chmod: "(\<And>t. P (Fs (Chmod p n), t)) \<Longrightarrow> steps anyTree (fs_chmod env p n) P anyTree"
  by (auto simp: steps_def prim_defs split: prim_splits)

lemma steps_fs_chown: "(\<And>t. P (Fs (Chown p u g), t)) \<Longrightarrow> steps anyTree (fs_chown env p u g) P anyTree"
  by (auto simp: steps_def prim_defs split: prim_splits)

lemma steps_extractAllTo:
  "(\<And>t. P (Fs (ExtractZip p), t)) \<Longrightarrow> steps anyTree (extractAllTo env archive p) P anyTree"
  by (auto simp: steps_def prim_defs split: prim_splits)

lemma steps_extractDmg:
  "(\<And>t. P (Fs (ExtractDmg p q), t)) \<Longrightarrow> steps anyTree (extractDmg env p q) P anyTree"
  by (auto simp: steps_def prim_defs split: prim_splits)

lemma steps_readdirCleanup:
  "(\<And>t. P (Fs (Readdir p), t)) \<Longrightarrow> (\<And>msg t. P (Log msg, t))
   \<Longrightarrow> steps anyTree (readdirCleanup env logDownloadInfo p) P anyTree"
  by (auto simp: steps_def prim_defs split: prim_splits)

lemmas steps_rules = steps_andThen_inv steps_tryCatch_inv steps_if steps_ret steps_throw
  steps_log steps_pure steps_fs_remove steps_fs_ensureDir steps_fs_move steps_fs_chmod steps_fs_chown
  steps_extractAllTo steps_extractDmg steps_readdirCleanup

lemma backupLocation_join [simp]: "backupLocation (d @ [n]) = d @ [n @ ''_old'']"
  by (simp add: backupLocation_def)

lemma andThen_ret_left: "andThen (ret x) f = f x"
  by (rule ext) (simp add: andThen_def ret_def)

lemma emits_andThen_right:
  assumes m: "steps anyTree m P anyTree" and f: "\<And>x. emits (f x) e"
  shows "emits (andThen m f) e"
  unfolding emits_def
proof (intro allI impI)
  fix w :: world and x w'
  assume r: "andThen m f w = (Inr x, w')"
  obtain r1 w1 where mw: "m w = (r1, w1)" by fastforce
  from m obtain hs1 where h1: "history (snd (m w)) = history w @ hs1"
    by (auto elim: stepsD)
  show "\<exists>hs. history w' = history w @ hs \<and> e \<in> fst ` set hs"
  proof (cases r1)
    case (Inl err)
    with r mw show ?thesis by (simp add: andThen_def)
  next
    case (Inr y)
    with r mw have "f y w1 = (Inr x, w')" by (simp add: andThen_def)
    with f [of y] obtain hs2 where "history w' = history w1 @ hs2" "e \<in> fst ` set hs2"
      unfolding emits_def by blast
    with h1 mw have "history w' = history w @ (hs1 @ hs2) \<and> e \<in> fst ` set (hs1 @ hs2)"
      by auto
    then show ?thesis by blast
  qed
qed

lemma emits_andThen_left:
  assumes m: "emits m e" and f: "\<And>x. steps anyTree (f x) P anyTree"
  shows "emits (andThen m f) e"
  unfolding emits_def
proof (intro allI impI)
  fix w :: world and x w'
  assume r: "andThen m f w = (Inr x, w')"
  obtain r1 w1 where mw: "m w = (r1, w1)" by fastforce
  show "\<exists>hs. history w' = history w @ hs \<and> e \<in> fst ` set hs"
  proof (cases r1)
    case (Inl err)
    with r mw show ?thesis by (simp add: andThen_def)
  next
    case (Inr y)
    with r mw have fy: "f y w1 = (Inr x, w')" by (simp add: andThen_def)
    from m mw Inr obtain hs1 where h1: "history w1 = history w @ hs1" "e \<in> fst ` set hs1"
      unfolding emits_def by blast
    from f [of y] obtain hs2 where "history (snd (f y w1)) = history w1 @ hs2"
      by (auto elim: stepsD)
    with fy h1 have "history w' = history w @ (hs1 @ hs2) \<and> e \<in> fst ` set (hs1 @ hs2)"
      by auto
    then show ?thesis by blast
  qed
qed

lemma extractDmg_history:
  "history (snd (extractDmg env a d w)) = history w @ [(Fs (ExtractDmg a d), files w)]"
  by (auto simp: prim_defs split: prim_splits)

lemma emits_extractDmg: "emits (extractDmg env a d) (Fs (ExtractDmg a d))"
  unfolding emits_def
proof (intro allI impI)
  fix w :: world and x w'
  assume "extractDmg env a d w = (Inr x, w')"
  with extractDmg_history [of env a d w]
  have "history w' = history w @ [(Fs (ExtractDmg a d), files w)]" by simp
  then show "\<exists>hs. history w' = history w @ hs \<and> Fs (ExtractDmg a d) \<in> fst ` set hs"
    by simp
qed

lemma darwinStage_staging:
  "steps anyTree (darwinStage env a logDownloadInfo p) (\<lambda>h. isStaging p a (fst h)) anyTree"
  unfolding darwinStage_def
  by (intro steps_rules) (simp_all add: isStaging_def)

lemma darwinStage_extracts:
  "emits (darwinStage env a logDownloadInfo p) (Fs (ExtractDmg a p))"
  unfolding darwinStage_def
  by (intro emits_andThen_right [where P = "\<lambda>h. True"] emits_andThen_left [where P = "\<lambda>h. True"]
        emits_extractDmg steps_rules)
     simp_all

lemma darwinMigrate_migration:
  "steps anyTree (darwinMigrate env logDownloadInfo p ai) (\<lambda>h. isMigrationStep p (fst h)) anyTree"
  unfolding darwinMigrate_def Let_def
  by (intro steps_rules) (simp_all add: isMigrationStep_def)

lemma fs_chmod_history:
  "history (snd (fs_chmod env p n w)) = history w @ [(Fs (Chmod p n), files w)]"
  by (auto simp: prim_defs split: prim_splits)

lemma darwinFixPermissions_first:
  "\<exists>hs. history (snd (darwinFixPermissions env ty logDownloadInfo p w))
           = history w @ (Fs (Chmod (p @ [''Slippi Dolphin.app'']) 511), files w) # hs
        \<and> list_all (\<lambda>h. isPermissionStep env p (fst h)) hs"
proof -
  let ?app = "p @ [''Slippi Dolphin.app'']"
  let ?rest = "\<lambda>_ :: unit.
     andThen (fs_chown env ?app (userInfo_uid env) (userInfo_gid env)) (\<lambda>_.
     andThen (fs_chmod env (binaryLocation p) 511) (\<lambda>_.
     fs_chown env (binaryLocation p) (userInfo_uid env) (userInfo_gid env)))"
  let ?handler = "\<lambda>err. logDownloadInfo (''could not chmod/chown '' @ typeName env ty @ '' Dolphin''
                    @ [CHR 0x0A] @ show_error err)"
  let ?P = "\<lambda>h. isPermissionStep env p (fst h)"
  have rest: "steps anyTree (?rest u) ?P anyTree" for u
    by (intro steps_rules) (simp_all add: isPermissionStep_def)
  have handler: "\<And>err. steps anyTree (?handler err) ?P anyTree"
    by (intro steps_rules) (simp_all add: isPermissionStep_def)
  have eq: "darwinFixPermissions env ty logDownloadInfo p
          = tryCatch (andThen (fs_chmod env ?app 511) ?rest) ?handler"
    by (simp add: darwinFixPermissions_def darwinChmodChown_def)
  obtain r1 w1 where c: "fs_chmod env ?app 511 w = (r1, w1)" by fastforce
  with fs_chmod_history [of env ?app 511 w]
  have h1: "history w1 = history w @ [(Fs (Chmod ?app 511), files w)]" by simp
  show ?thesis
  proof (cases r1)
    case (Inl err)
    from handler [of err] obtain hs where "history (snd (?handler err w1)) = history w1 @ hs"
      and "list_all ?P hs" by (auto elim: stepsD)
    with c Inl h1 show ?thesis
      unfolding eq by (simp add: tryCatch_def andThen_def)
  next
    case (Inr u)
    obtain r2 w2 where r: "?rest u w1 = (r2, w2)" by fastforce
    from rest obtain hs2 where h2: "history (snd (?rest u w1)) = history w1 @ hs2"
      and p2: "list_all ?P hs2" by (auto elim: stepsD)
    show ?thesis
    proof (cases r2)
      case ok: (Inr v)
      with c Inr r h1 h2 p2 show ?thesis
        unfolding eq by (simp add: tryCatch_def andThen_def)
    next
      case bad: (Inl err)
      from handler [of err] obtain hs3 where "history (snd (?handler err w2)) = history w2 @ hs3"
        and "list_all ?P hs3" by (auto elim: stepsD)
      with c Inr r bad h1 h2 p2 show ?thesis
        unfolding eq by (simp add: tryCatch_def andThen_def)
    qed
  qed
qed

lemma darwinFixPermissions_returns:
  "fst (darwinFixPermissions env ty logDownloadInfo p w) = Inr ()"
  by (simp add: darwinFixPermissions_def tryCatch_def logDownloadInfo_def emit_def
      split: prod.split sum.split)

lemma wipe_history:
  "history (snd ((if c then fs_remove env p else ret ()) w))
     = history w @ (if c then [(Fs (Remove p), files w)] else [])"
  by (auto simp: prim_defs split: prim_splits)

text \<open>
  C4, as the code has it. On darwin the calls of every run of \<open>installDolphin\<close> come in
  the order staging, permission step, migration: after the clean wipe, if one was asked
  for, the history that the run adds splits into three consecutive parts, the first with
  staging calls only, the second with chmod and chown calls of the bundle and its
  executable only, the third with migration calls only (log lines apart). The permission
  part begins with the chmod of the bundle, and then the staging part holds the extraction
  call; nothing is migrated unless the permission step has been run, and a run that
  returns has run it. What the callback of the directory listing removes is not a call of
  the run and has no place in this order.
\<close>

theorem darwin_permissions_before_migration:
  assumes "platform env = ''darwin''"
  shows "\<exists>staging permissions migration.
           trace (snd (installDolphin env ty assetPath logDownloadInfo cleanInstall w))
             = trace w @ (if cleanInstall then [Fs (Remove (userData env @ [typeName env ty]))] else [])
               @ staging @ permissions @ migration
           \<and> list_all (isStaging (userData env @ [typeName env ty]) assetPath) staging
           \<and> list_all (isPermissionStep env (userData env @ [typeName env ty])) permissions
           \<and> list_all (isMigrationStep (userData env @ [typeName env ty])) migration
           \<and> (permissions \<noteq> [] \<longrightarrow>
                hd permissions = Fs (Chmod (userData env @ [typeName env ty, ''Slippi Dolphin.app'']) 511)
                \<and> Fs (ExtractDmg assetPath (userData env @ [typeName env ty])) \<in> set staging)
           \<and> (migration \<noteq> [] \<longrightarrow> permissions \<noteq> [])
           \<and> (fst (installDolphin env ty assetPath logDownloadInfo cleanInstall w) = Inr () \<longrightarrow>
                permissions \<noteq> [])"
proof -
  let ?root = "userData env @ [typeName env ty]"
  let ?wipe = "if cleanInstall then fs_remove env ?root else ret ()"
  let ?wiped = "if cleanInstall then [Fs (Remove ?root)] else []"
  let ?R = "installDolphin env ty assetPath logDownloadInfo cleanInstall w"
  let ?chmod = "Fs (Chmod (userData env @ [typeName env ty, ''Slippi Dolphin.app'']) 511)"
  have eq: "installDolphin env ty assetPath logDownloadInfo cleanInstall =
      andThen ?wipe (\<lambda>_.
      andThen (darwinStage env assetPath logDownloadInfo ?root) (\<lambda>alreadyInstalled.
      andThen (darwinFixPermissions env ty logDownloadInfo ?root) (\<lambda>_.
      darwinMigrate env logDownloadInfo ?root alreadyInstalled)))"
    using assms by (simp add: installDolphin_def installDarwin_def Let_def)
  obtain r0 w0 where wipe: "?wipe w = (r0, w0)" by fastforce
  with wipe_history [of cleanInstall env ?root w]
  have t0: "trace w0 = trace w @ ?wiped" by (simp add: trace_def)
  show ?thesis
  proof (cases r0)
    case (Inl err)
    with wipe have "?R = (Inl err, w0)" by (simp add: eq andThen_def)
    with t0 have "trace (snd ?R) = trace w @ ?wiped @ [] @ [] @ []
        \<and> list_all (isStaging ?root assetPath) [] \<and> list_all (isPermissionStep env ?root) []
        \<and> list_all (isMigrationStep ?root) []
        \<and> ([] \<noteq> [] \<longrightarrow> hd [] = ?chmod \<and> Fs (ExtractDmg assetPath ?root) \<in> set [])
        \<and> ([] \<noteq> ([] :: event list) \<longrightarrow> [] \<noteq> ([] :: event list))
        \<and> (fst ?R = Inr () \<longrightarrow> [] \<noteq> ([] :: event list))"
      by simp
    then show ?thesis by blast
  next
    case wiped: (Inr u)
    obtain r1 w1 where stage: "darwinStage env assetPath logDownloadInfo ?root w0 = (r1, w1)"
      by fastforce
    from darwinStage_staging [of env assetPath ?root]
    obtain hs1 where "history (snd (darwinStage env assetPath logDownloadInfo ?root w0)) = history w0 @ hs1"
      and p1: "list_all (\<lambda>h. isStaging ?root assetPath (fst h)) hs1"
      by (auto elim: stepsD)
    with stage have h1: "history w1 = history w0 @ hs1" by simp
    from h1 t0 have t1: "trace w1 = trace w @ ?wiped @ map fst hs1" by (simp add: trace_def)
    from p1 have s1: "list_all (isStaging ?root assetPath) (map fst hs1)"
      by (simp add: list_all_iff)
    show ?thesis
    proof (cases r1)
      case (Inl err)
      with wipe wiped stage have "?R = (Inl err, w1)" by (simp add: eq andThen_def)
      with t1 s1 have "trace (snd ?R) = trace w @ ?wiped @ map fst hs1 @ [] @ []
          \<and> list_all (isStaging ?root assetPath) (map fst hs1)
          \<and> list_all (isPermissionStep env ?root) []
          \<and> list_all (isMigrationStep ?root) []
          \<and> ([] \<noteq> [] \<longrightarrow> hd [] = ?chmod \<and> Fs (ExtractDmg assetPath ?root) \<in> set (map fst hs1))
          \<and> ([] \<noteq> ([] :: event list) \<longrightarrow> [] \<noteq> ([] :: event list))
          \<and> (fst ?R = Inr () \<longrightarrow> [] \<noteq> ([] :: event list))"
        by simp
      then show ?thesis by blast
    next
      case staged: (Inr alreadyInstalled)
      from darwinStage_extracts [of env assetPath ?root] stage staged h1
      have ex: "Fs (ExtractDmg assetPath ?root) \<in> set (map fst hs1)"
        unfolding emits_def by fastforce
      obtain r2 w2 where perms: "darwinFixPermissions env ty logDownloadInfo ?root w1 = (r2, w2)"
        by fastforce
      with darwinFixPermissions_returns [of env ty ?root w1] have r2: "r2 = Inr ()" by simp
      from darwinFixPermissions_first [of env ty ?root w1] perms
      obtain hs2 where h2: "history w2 = history w1 @ (?chmod, files w1) # hs2"
        and p2: "list_all (\<lambda>h. isPermissionStep env ?root (fst h)) hs2"
        by auto
      obtain r3 w3 where mig: "darwinMigrate env logDownloadInfo ?root alreadyInstalled w2 = (r3, w3)"
        by fastforce
      from darwinMigrate_migration [of env ?root alreadyInstalled]
      obtain hs3 where "history (snd (darwinMigrate env logDownloadInfo ?root alreadyInstalled w2)) = history w2 @ hs3"
        and p3: "list_all (\<lambda>h. isMigrationStep ?root (fst h)) hs3"
        by (auto elim: stepsD)
      with mig have h3: "history w3 = history w2 @ hs3" by simp
      from wipe wiped stage staged perms r2 mig have R: "?R = (r3, w3)"
        by (simp add: eq andThen_def)
      from h3 h2 t1 have t3: "trace w3 = trace w @ ?wiped @ map fst hs1 @ (?chmod # map fst hs2) @ map fst hs3"
        by (simp add: trace_def)
      from p2 have s2: "list_all (isPermissionStep env ?root) (?chmod # map fst hs2)"
        by (simp add: list_all_iff isPermissionStep_def)
      from p3 have s3: "list_all (isMigrationStep ?root) (map fst hs3)"
        by (simp add: list_all_iff)
      from R t3 s1 s2 s3 ex
      have "trace (snd ?R) = trace w @ ?wiped @ map fst hs1 @ (?chmod # map fst hs2) @ map fst hs3
          \<and> list_all (isStaging ?root assetPath) (map fst hs1)
          \<and> list_all (isPermissionStep env ?root) (?chmod # map fst hs2)
          \<and> list_all (isMigrationStep ?root) (map fst hs3)
          \<and> (?chmod # map fst hs2 \<noteq> [] \<longrightarrow>
               hd (?chmod # map fst hs2) = ?chmod
               \<and> Fs (ExtractDmg assetPath ?root) \<in> set (map fst hs1))
          \<and> (map fst hs3 \<noteq> [] \<longrightarrow> ?chmod # map fst hs2 \<noteq> [])
          \<and> (fst ?R = Inr () \<longrightarrow> ?chmod # map fst hs2 \<noteq> [])"
        by simp
      then show ?thesis by blast
    qed
  qed
qed

text \<open>
  C4 as stated fails: in this run the four permission calls come before the move of the
  \<^verbatim>\<open>User\<close> folder and the removal of the backup.
\<close>

theorem darwin_migration_after_permissions_counterexample:
  "trace (snd (installDolphin (sampleEnv ''darwin'') NETPLAY [''a.dmg''] logDownloadInfo False installedWorld))
     = [Log ''/d/netplay/Slippi Dolphin.app/Contents/Resources already exists. Moving...'',
        Fs (Move [''d'', ''netplay''] [''d'', ''netplay_old'']),
        Log ''Extracting to: /d/netplay'',
        Fs (ExtractDmg [''a.dmg''] [''d'', ''netplay'']),
        Fs (Readdir [''d'', ''netplay'']),
        Fs (Chmod [''d'', ''netplay'', ''Slippi Dolphin.app''] 511),
        Fs (Chown [''d'', ''netplay'', ''Slippi Dolphin.app''] 501 20),
        Fs (Chmod [''d'', ''netplay'', ''Slippi Dolphin.app'', ''Contents'', ''MacOS'', ''Slippi Dolphin''] 511),
        Fs (Chown [''d'', ''netplay'', ''Slippi Dolphin.app'', ''Contents'', ''MacOS'', ''Slippi Dolphin''] 501 20),
        Log ''moving User folder...'',
        Fs (Move [''d'', ''netplay_old'', ''Slippi Dolphin.app'', ''Contents'', ''Resources'', ''User'']
                 [''d'', ''netplay'', ''Slippi Dolphin.app'', ''Contents'', ''Resources'', ''User'']),
        Fs (Remove [''d'', ''netplay_old''])]
   \<and> fst (installDolphin (sampleEnv ''darwin'') NETPLAY [''a.dmg''] logDownloadInfo False installedWorld)
     = Inr ()"
  by (simp add: run sample)

theorem darwin_permissions_before_migration_witness:
  "platform (sampleEnv ''darwin'') = ''darwin''
   \<and> fst (installDolphin (sampleEnv ''darwin'') NETPLAY [''a.dmg''] logDownloadInfo False installedWorld)
     = Inr ()
   \<and> (\<exists>staging permissions migration.
         trace (snd (installDolphin (sampleEnv ''darwin'') NETPLAY [''a.dmg''] logDownloadInfo False installedWorld))
           = staging @ permissions @ migration
         \<and> list_all (isStaging [''d'', ''netplay''] [''a.dmg'']) staging
         \<and> list_all (isPermissionStep (sampleEnv ''darwin'') [''d'', ''netplay'']) permissions
         \<and> list_all (isMigrationStep [''d'', ''netplay'']) migration
         \<and> permissions \<noteq> []
         \<and> hd permissions = Fs (Chmod [''d'', ''netplay'', ''Slippi Dolphin.app''] 511)
         \<and> Fs (ExtractDmg [''a.dmg''] [''d'', ''netplay'']) \<in> set staging)"
proof -
  let ?R = "installDolphin (sampleEnv ''darwin'') NETPLAY [''a.dmg''] logDownloadInfo False installedWorld"
  have p: "platform (sampleEnv ''darwin'') = ''darwin''"
    by (simp add: sampleEnv_sel)
  have ok: "fst ?R = Inr ()"
    by (simp add: run sample)
  from darwin_permissions_before_migration [OF p, of NETPLAY "[''a.dmg'']" False installedWorld]
  obtain staging permissions migration where
    "trace (snd ?R) = trace installedWorld @ [] @ staging @ permissions @ migration"
    "list_all (isStaging [''d'', ''netplay''] [''a.dmg'']) staging"
    "list_all (isPermissionStep (sampleEnv ''darwin'') [''d'', ''netplay'']) permissions"
    "list_all (isMigrationStep [''d'', ''netplay'']) migration"
    "permissions \<noteq> [] \<longrightarrow> hd permissions = Fs (Chmod [''d'', ''netplay'', ''Slippi Dolphin.app''] 511)
        \<and> Fs (ExtractDmg [''a.dmg''] [''d'', ''netplay'']) \<in> set staging"
    "fst ?R = Inr () \<longrightarrow> permissions \<noteq> []"
    by (auto simp: sampleEnv_sel)
  with ok have "trace (snd ?R) = staging @ permissions @ migration
         \<and> list_all (isStaging [''d'', ''netplay''] [''a.dmg'']) staging
         \<and> list_all (isPermissionStep (sampleEnv ''darwin'') [''d'', ''netplay'']) permissions
         \<and> list_all (isMigrationStep [''d'', ''netplay'']) migration
         \<and> permissions \<noteq> []
         \<and> hd permissions = Fs (Chmod [''d'', ''netplay'', ''Slippi Dolphin.app''] 511)
         \<and> Fs (ExtractDmg [''a.dmg''] [''d'', ''netplay'']) \<in> set staging"
    by (simp add: trace_def sampleWorld_sel)
  then have "\<exists>staging permissions migration. trace (snd ?R) = staging @ permissions @ migration
         \<and> list_all (isStaging [''d'', ''netplay''] [''a.dmg'']) staging
         \<and> list_all (isPermissionStep (sampleEnv ''darwin'') [''d'', ''netplay'']) permissions
         \<and> list_all (isMigrationStep [''d'', ''netplay'']) migration
         \<and> permissions \<noteq> []
         \<and> hd permissions = Fs (Chmod [''d'', ''netplay'', ''Slippi Dolphin.app''] 511)
         \<and> Fs (ExtractDmg [''a.dmg''] [''d'', ''netplay'']) \<in> set staging"
    by blast
  with p ok show ?thesis by (intro conjI)
qed

section \<open>Failure of the permission step\<close>

lemma darwinFixPermissions_result:
  "darwinFixPermissions env ty logDownloadInfo p w =
     (case darwinChmodChown env p w of
        (Inr u, w2) \<Rightarrow> (Inr (), w2)
      | (Inl err, w2) \<Rightarrow>
          (Inr (), logged [Log (''could not chmod/chown '' @ typeName env ty @ '' Dolphin'' @ [CHR 0x0A]
                                @ show_error err)] w2))"
  by (simp add: darwinFixPermissions_def tryCatch_def logDownloadInfo_def emit_def logged_def
        split: prod.split sum.split)

text \<open>
  C5, as the code has it. On darwin the permission step never throws. When one of its
  four calls fails, the step ends normally in the world the failed call left, with
  the "could not chmod/chown" line logged. After a successful wipe and staging the
  install is therefore whatever the migration makes of the world the permission step
  left: an error of chmod or chown never becomes an error of the install.
\<close>

theorem darwin_permission_failure_swallowed:
  assumes "platform env = ''darwin''"
  shows "fst (darwinFixPermissions env ty logDownloadInfo (userData env @ [typeName env ty]) w1) = Inr ()
       \<and> (\<forall>err w2. darwinChmodChown env (userData env @ [typeName env ty]) w1 = (Inl err, w2) \<longrightarrow>
             darwinFixPermissions env ty logDownloadInfo (userData env @ [typeName env ty]) w1 =
               (Inr (), logged [Log (''could not chmod/chown '' @ typeName env ty @ '' Dolphin''
                                     @ [CHR 0x0A] @ show_error err)] w2))
       \<and> (\<forall>w0 alreadyInstalled.
             (if cleanInstall then fs_remove env (userData env @ [typeName env ty]) else ret ()) w
               = (Inr (), w0)
             \<and> darwinStage env assetPath logDownloadInfo (userData env @ [typeName env ty]) w0
               = (Inr alreadyInstalled, w1) \<longrightarrow>
             installDolphin env ty assetPath logDownloadInfo cleanInstall w =
               darwinMigrate env logDownloadInfo (userData env @ [typeName env ty]) alreadyInstalled
                 (snd (darwinFixPermissions env ty logDownloadInfo (userData env @ [typeName env ty]) w1)))"
proof -
  let ?root = "userData env @ [typeName env ty]"
  have a: "fst (darwinFixPermissions env ty logDownloadInfo ?root w1) = Inr ()"
    by (simp add: darwinFixPermissions_result split: prod.split sum.split)
  have b: "\<forall>err w2. darwinChmodChown env ?root w1 = (Inl err, w2) \<longrightarrow>
             darwinFixPermissions env ty logDownloadInfo ?root w1 =
               (Inr (), logged [Log (''could not chmod/chown '' @ typeName env ty @ '' Dolphin''
                                     @ [CHR 0x0A] @ show_error err)] w2)"
    by (simp add: darwinFixPermissions_result)
  have c: "\<forall>w0 alreadyInstalled.
             (if cleanInstall then fs_remove env ?root else ret ()) w = (Inr (), w0)
             \<and> darwinStage env assetPath logDownloadInfo ?root w0 = (Inr alreadyInstalled, w1) \<longrightarrow>
             installDolphin env ty assetPath logDownloadInfo cleanInstall w =
               darwinMigrate env logDownloadInfo ?root alreadyInstalled
                 (snd (darwinFixPermissions env ty logDownloadInfo ?root w1))"
  proof (intro allI impI, elim conjE)
    fix w0 alreadyInstalled
    assume r: "(if cleanInstall then fs_remove env ?root else ret ()) w = (Inr (), w0)"
      and s: "darwinStage env assetPath logDownloadInfo ?root w0 = (Inr alreadyInstalled, w1)"
    obtain x w2 where f: "darwinFixPermissions env ty logDownloadInfo ?root w1 = (x, w2)"
      by (cases "darwinFixPermissions env ty logDownloadInfo ?root w1")
    with a have x: "x = Inr ()" by simp
    show "installDolphin env ty assetPath logDownloadInfo cleanInstall w =
               darwinMigrate env logDownloadInfo ?root alreadyInstalled
                 (snd (darwinFixPermissions env ty logDownloadInfo ?root w1))"
      using assms r s f x
      by (simp add: installDolphin_def installDarwin_def Let_def andThen_def)
  qed
  from a b c show ?thesis by blast
qed

theorem darwin_permission_failure_swallowed_witness:
  "platform ((sampleEnv ''darwin'')\<lparr>fault := noPermissions\<rparr>) = ''darwin''
   \<and> fst (darwinChmodChown ((sampleEnv ''darwin'')\<lparr>fault := noPermissions\<rparr>) [''d'', ''netplay'']
            (snd (darwinStage ((sampleEnv ''darwin'')\<lparr>fault := noPermissions\<rparr>) [''a.dmg''] logDownloadInfo
                   [''d'', ''netplay''] installedWorld)))
       = Inl (Error ''EPERM'')
   \<and> fst (darwinFixPermissions ((sampleEnv ''darwin'')\<lparr>fault := noPermissions\<rparr>) NETPLAY logDownloadInfo
            [''d'', ''netplay'']
            (snd (darwinStage ((sampleEnv ''darwin'')\<lparr>fault := noPermissions\<rparr>) [''a.dmg''] logDownloadInfo
                   [''d'', ''netplay''] installedWorld)))
       = Inr ()
   \<and> fst (installDolphin ((sampleEnv ''darwin'')\<lparr>fault := noPermissions\<rparr>) NETPLAY [''a.dmg''] logDownloadInfo
            False installedWorld) = Inr ()
   \<and> trace (snd (installDolphin ((sampleEnv ''darwin'')\<lparr>fault := noPermissions\<rparr>) NETPLAY [''a.dmg'']
            logDownloadInfo False installedWorld))
       = [Log ''/d/netplay/Slippi Dolphin.app/Contents/Resources already exists. Moving...'',
          Fs (Move [''d'', ''netplay''] [''d'', ''netplay_old'']),
          Log ''Extracting to: /d/netplay'',
          Fs (ExtractDmg [''a.dmg''] [''d'', ''netplay'']),
          Fs (Readdir [''d'', ''netplay'']),
          Fs (Chmod [''d'', ''netplay'', ''Slippi Dolphin.app''] 511),
          Log (''could not chmod/chown netplay Dolphin'' @ [CHR 0x0A] @ ''Error: EPERM''),
          Log ''moving User folder...'',
          Fs (Move [''d'', ''netplay_old'', ''Slippi Dolphin.app'', ''Contents'', ''Resources'', ''User'']
                   [''d'', ''netplay'', ''Slippi Dolphin.app'', ''Contents'', ''Resources'', ''User'']),
          Fs (Remove [''d'', ''netplay_old''])]"
proof -
  let ?env = "(sampleEnv ''darwin'')\<lparr>fault := noPermissions\<rparr>"
  let ?w1 = "snd (darwinStage ?env [''a.dmg''] logDownloadInfo [''d'', ''netplay''] installedWorld)"
  have p: "platform ?env = ''darwin''"
    by (simp add: sampleEnv_sel)
  have u: "userData ?env @ [typeName ?env NETPLAY] = [''d'', ''netplay'']"
    by (simp add: sampleEnv_sel)
  note T = darwin_permission_failure_swallowed [OF p, of NETPLAY ?w1, unfolded u]
  have a: "fst (darwinChmodChown ?env [''d'', ''netplay''] ?w1) = Inl (Error ''EPERM'')"
    by (simp add: run sample noPermissions_def)
  have b: "fst (darwinFixPermissions ?env NETPLAY logDownloadInfo [''d'', ''netplay''] ?w1) = Inr ()"
    by (rule conjunct1 [OF T])
  have c: "fst (installDolphin ?env NETPLAY [''a.dmg''] logDownloadInfo False installedWorld) = Inr ()"
    by (simp add: run sample noPermissions_def)
  have d: "trace (snd (installDolphin ?env NETPLAY [''a.dmg''] logDownloadInfo False installedWorld))
       = [Log ''/d/netplay/Slippi Dolphin.app/Contents/Resources already exists. Moving...'',
          Fs (Move [''d'', ''netplay''] [''d'', ''netplay_old'']),
          Log ''Extracting to: /d/netplay'',
          Fs (ExtractDmg [''a.dmg''] [''d'', ''netplay'']),
          Fs (Readdir [''d'', ''netplay'']),
          Fs (Chmod [''d'', ''netplay'', ''Slippi Dolphin.app''] 511),
          Log (''could not chmod/chown netplay Dolphin'' @ [CHR 0x0A] @ ''Error: EPERM''),
          Log ''moving User folder...'',
          Fs (Move [''d'', ''netplay_old'', ''Slippi Dolphin.app'', ''Contents'', ''Resources'', ''User'']
                   [''d'', ''netplay'', ''Slippi Dolphin.app'', ''Contents'', ''Resources'', ''User'']),
          Fs (Remove [''d'', ''netplay_old''])]"
    by (simp add: run sample noPermissions_def)
  from p a b c d show ?thesis by blast
qed

text \<open>
  C5 as stated fails on linux: the same install that succeeds when chmod works throws
  the error of chmod when it does not.
\<close>

theorem linux_permission_failure_fatal_counterexample:
  "fst (installDolphin (sampleEnv ''linux'') NETPLAY [''a.zip''] logDownloadInfo False installedWorld) = Inr ()
   \<and> fst (installDolphin ((sampleEnv ''linux'')\<lparr>fault := chmodFails\<rparr>) NETPLAY [''a.zip''] logDownloadInfo
            False installedWorld) = Inl (Error ''EPERM'')
   \<and> trace (snd (installDolphin ((sampleEnv ''linux'')\<lparr>fault := chmodFails\<rparr>) NETPLAY [''a.zip'']
            logDownloadInfo False installedWorld))
       = [Log ''/d/netplay/Dolphin.exe already exists. Deleting...'',
          Fs (Remove [''d'', ''netplay'', ''Dolphin.exe'']),
          Fs (ExtractZip [''d'', ''netplay'']),
          Log ''Setting executable permissions...'',
          Fs (Chmod [''d'', ''netplay'', ''Dolphin.exe''] 493)]"
  by (simp add: run sample chmodFails_def)

section \<open>Clean install wipes before staging\<close>

lemma steps_cong:
  "(\<And>w. I (files w) \<Longrightarrow> m w = m' w) \<Longrightarrow> steps I m' P J \<Longrightarrow> steps I m P J"
  by (simp add: steps_def)

lemma steps_log_inv: "(\<And>t. I t \<Longrightarrow> P (Log msg, t)) \<Longrightarrow> steps I (logDownloadInfo msg) P I"
  by (simp add: steps_def logDownloadInfo_def emit_def)

lemma steps_pure_inv:
  "steps I (fs_pathExists p) P I"
  "steps I (fileExists p) P I"
  "steps I (findDolphinExecutable env ty) P I"
  "steps I (new_AdmZip env p) P I"
  by (auto simp: steps_def prim_defs split: prim_splits)

lemma steps_fs_remove_inv:
  "(\<And>t. I t \<Longrightarrow> P (Fs (Remove p), t) \<and> I (rmrf p t)) \<Longrightarrow> steps I (fs_remove env p) P I"
  by (auto simp: steps_def prim_defs split: prim_splits)

lemma steps_extractAllTo_from:
  "(\<And>t. I t \<Longrightarrow> P (Fs (ExtractZip p), t)) \<Longrightarrow> steps I (extractAllTo env archive p) P anyTree"
  by (auto simp: steps_def prim_defs split: prim_splits)

lemma steps_extractDmg_from:
  "(\<And>t. I t \<Longrightarrow> P (Fs (ExtractDmg p q), t)) \<Longrightarrow> steps I (extractDmg env p q) P anyTree"
  by (auto simp: steps_def prim_defs split: prim_splits)

lemma nothingAt_rmrf: "nothingAt p t \<Longrightarrow> nothingAt p (rmrf q t)"
  by (simp add: nothingAt_def rmrf_def)

lemma nothingAt_rmrf_self: "nothingAt p (rmrf p t)"
  by (simp add: nothingAt_def rmrf_def)

lemma win32_staged:
  "steps (nothingAt root) (installWin32 env a logDownloadInfo root) (stagedOnEmpty root) anyTree"
  unfolding installWin32_def
  apply (rule steps_andThen [where K = "nothingAt root"])
    apply (rule steps_log_inv, simp add: isExtract_def)
   apply (rule steps_andThen [where K = "nothingAt root"])
     apply (rule steps_pure_inv)
    apply (rule steps_extractAllTo_from, simp)
   apply simp
  apply simp
  done

lemma darwinStage_fresh:
  "files w (dolphinResourcesPath root) = None \<Longrightarrow>
   darwinStage env a log root w =
     andThen (log (''Extracting to: '' @ show_path root)) (\<lambda>_.
     andThen (extractDmg env a root) (\<lambda>_.
     andThen (readdirCleanup env log root) (\<lambda>_. ret False))) w"
  by (simp add: darwinStage_def fs_pathExists_def andThen_def getFiles_def ret_def)

lemma darwin_staged:
  "steps (nothingAt root) (installDarwin env ty a logDownloadInfo root) (stagedOnEmpty root) anyTree"
proof -
  let ?P = "stagedOnEmpty root"
  have rest: "\<And>ai. steps anyTree
      (andThen (darwinFixPermissions env ty logDownloadInfo root) (\<lambda>_.
         darwinMigrate env logDownloadInfo root ai)) ?P anyTree"
    unfolding darwinFixPermissions_def darwinChmodChown_def darwinMigrate_def Let_def
    by (intro steps_rules) (simp_all add: isExtract_def)
  have fresh: "steps (nothingAt root)
     (andThen (logDownloadInfo (''Extracting to: '' @ show_path root)) (\<lambda>_.
      andThen (extractDmg env a root) (\<lambda>_.
      andThen (readdirCleanup env logDownloadInfo root) (\<lambda>_. ret False)))) ?P anyTree"
    apply (rule steps_andThen [where K = "nothingAt root"])
      apply (rule steps_log_inv, simp add: isExtract_def)
     apply (rule steps_andThen [where K = anyTree])
       apply (rule steps_extractDmg_from, simp)
      apply (intro steps_rules; simp add: isExtract_def)
     apply simp
    apply simp
    done
  have stage: "steps (nothingAt root) (darwinStage env a logDownloadInfo root) ?P anyTree"
    by (rule steps_cong [OF darwinStage_fresh fresh])
       (simp add: nothingAt_def dolphinResourcesPath_def)
  show ?thesis
    unfolding installDarwin_def
    by (rule steps_andThen [OF stage rest]) simp
qed

lemma linux_staged:
  "steps (nothingAt root) (installLinux env ty a logDownloadInfo c root) (stagedOnEmpty root) anyTree"
proof -
  let ?P = "stagedOnEmpty root"
  let ?I = "nothingAt root"
  have rm: "\<And>p. steps ?I (fs_remove env p) ?P ?I"
    by (rule steps_fs_remove_inv) (simp add: isExtract_def nothingAt_rmrf)
  have pre: "steps ?I
     (tryCatch
        (andThen (findDolphinExecutable env ty) (\<lambda>dolphinAppImagePath.
         andThen (fileExists dolphinAppImagePath) (\<lambda>exists.
           if exists then
             andThen (logDownloadInfo (show_path dolphinAppImagePath @ '' already exists. Deleting...'')) (\<lambda>_.
             fs_remove env dolphinAppImagePath)
           else ret ())))
        (\<lambda>err. logDownloadInfo ''No existing AppImage found'')) ?P ?I"
    by (intro steps_tryCatch_inv steps_andThen_inv steps_if steps_ret steps_pure_inv steps_log_inv rm)
       (simp_all add: isExtract_def)
  have wipe: "steps ?I
     (if c then
        (let userFolder = (if ty = NETPLAY then ''SlippiOnline'' else ''SlippiPlayback'')
         in fs_remove env (home env @ [''.config'', userFolder]))
      else ret ()) ?P ?I"
    by (simp add: Let_def rm steps_ret)
  have post: "steps anyTree
     (andThen (findDolphinExecutable env ty) (\<lambda>dolphinAppImagePath.
      andThen (logDownloadInfo ''Setting executable permissions...'') (\<lambda>_.
      fs_chmod env dolphinAppImagePath 493))) ?P anyTree"
    by (intro steps_rules) (simp_all add: isExtract_def)
  show ?thesis
    unfolding installLinux_def
    apply (rule steps_andThen [OF pre])
     apply (rule steps_andThen [OF wipe])
      apply (rule steps_andThen [where K = ?I])
        apply (rule steps_pure_inv)
       apply (rule steps_andThen [where K = anyTree])
         apply (rule steps_extractAllTo_from, simp)
        apply (rule post)
       apply simp_all
    done
qed

lemma variants_staged:
  "steps (nothingAt root)
     (if platform env = ''win32'' then installWin32 env a logDownloadInfo root
      else if platform env = ''darwin'' then installDarwin env ty a logDownloadInfo root
      else if platform env = ''linux'' then installLinux env ty a logDownloadInfo c root
      else throw e) (stagedOnEmpty root) anyTree"
  by (simp add: win32_staged darwin_staged linux_staged steps_throw)

text \<open>
  C9. On every platform and for every kind, the first thing a clean install does is the
  removal of the target root, and every extraction call that the run makes afterwards
  finds a file system with nothing at or below the target root: all prior contents
  are gone before staging runs. (When the removal itself fails, the install fails there
  and no staging runs.)
\<close>

theorem cleanInstall_wipes_before_staging:
  "\<exists>hs. history (snd (installDolphin env ty assetPath logDownloadInfo True w))
           = history w @ (Fs (Remove (userData env @ [typeName env ty])), files w) # hs
        \<and> list_all (\<lambda>h. isExtract (fst h) \<longrightarrow> nothingAt (userData env @ [typeName env ty]) (snd h)) hs"
proof (cases "fault env (Remove (userData env @ [typeName env ty]))")
  case (Some e)
  then have "history (snd (installDolphin env ty assetPath logDownloadInfo True w))
           = history w @ (Fs (Remove (userData env @ [typeName env ty])), files w) # []"
    by (simp add: installDolphin_def Let_def andThen_Inl [OF fs_remove_fault])
  then show ?thesis by simp
next
  case None
  let ?root = "userData env @ [typeName env ty]"
  let ?w0 = "\<lparr>files = rmrf ?root (files w), history = history w @ [(Fs (Remove ?root), files w)]\<rparr>"
  let ?V = "if platform env = ''win32'' then installWin32 env assetPath logDownloadInfo ?root
      else if platform env = ''darwin'' then installDarwin env ty assetPath logDownloadInfo ?root
      else if platform env = ''linux'' then installLinux env ty assetPath logDownloadInfo True ?root
      else throw (Error (''Installing Netplay is not supported on this platform: '' @ platform env))"
  have run: "installDolphin env ty assetPath logDownloadInfo True w = ?V ?w0"
    by (simp add: installDolphin_def Let_def andThen_Inr [OF fs_remove_ok [OF None]])
  have n: "nothingAt ?root (files ?w0)"
    by (simp add: nothingAt_rmrf_self)
  have v: "steps (nothingAt ?root) ?V (stagedOnEmpty ?root) anyTree"
    by (rule variants_staged)
  from v n obtain hs where "history (snd (?V ?w0)) = history ?w0 @ hs"
    and "list_all (stagedOnEmpty ?root) hs"
    by (rule stepsD)
  with run show ?thesis by simp
qed


theorem cleanInstall_wipes_before_staging_witness:
  "(\<exists>hs. history (snd (installDolphin (sampleEnv ''linux'') NETPLAY [''a.zip''] logDownloadInfo True installedWorld))
           = history installedWorld @ (Fs (Remove [''d'', ''netplay'']), files installedWorld) # hs
        \<and> list_all (\<lambda>h. isExtract (fst h) \<longrightarrow> nothingAt [''d'', ''netplay''] (snd h)) hs)
   \<and> trace (snd (installDolphin (sampleEnv ''linux'') NETPLAY [''a.zip''] logDownloadInfo True installedWorld))
       = [Fs (Remove [''d'', ''netplay'']),
          Log ''No existing AppImage found'',
          Fs (Remove [''h'', ''.config'', ''SlippiOnline'']),
          Fs (ExtractZip [''d'', ''netplay'']),
          Log ''Setting executable permissions...'',
          Fs (Chmod [''d'', ''netplay'', ''Dolphin.exe''] 493)]
   \<and> files installedWorld [''d'', ''netplay'', ''Slippi Dolphin.app'', ''Contents'', ''Resources'', ''User'', ''cfg'']
       \<noteq> None
   \<and> snd (history (snd (installDolphin (sampleEnv ''linux'') NETPLAY [''a.zip''] logDownloadInfo True
                          installedWorld)) ! 3)
         [''d'', ''netplay'', ''Slippi Dolphin.app'', ''Contents'', ''Resources'', ''User'', ''cfg''] = None"
proof -
  let ?env = "sampleEnv ''linux''"
  have u: "userData ?env @ [typeName ?env NETPLAY] = [''d'', ''netplay'']"
    by (simp add: sampleEnv_sel)
  note T = cleanInstall_wipes_before_staging [of ?env NETPLAY "[''a.zip'']" installedWorld, unfolded u]
  have a: "trace (snd (installDolphin ?env NETPLAY [''a.zip''] logDownloadInfo True installedWorld))
       = [Fs (Remove [''d'', ''netplay'']),
          Log ''No existing AppImage found'',
          Fs (Remove [''h'', ''.config'', ''SlippiOnline'']),
          Fs (ExtractZip [''d'', ''netplay'']),
          Log ''Setting executable permissions...'',
          Fs (Chmod [''d'', ''netplay'', ''Dolphin.exe''] 493)]"
    by (simp add: run sample)
  have b: "files installedWorld
             [''d'', ''netplay'', ''Slippi Dolphin.app'', ''Contents'', ''Resources'', ''User'', ''cfg'']
       \<noteq> None"
    by (simp add: sample)
  have c: "snd (history (snd (installDolphin ?env NETPLAY [''a.zip''] logDownloadInfo True installedWorld)) ! 3)
         [''d'', ''netplay'', ''Slippi Dolphin.app'', ''Contents'', ''Resources'', ''User'', ''cfg''] = None"
    by (simp add: run sample)
  from T a b c show ?thesis by blast
qed

section \<open>Downloading once\<close>

lemma forEach_progress:
  "forEach (\<lambda>p. andThen (emit (Progress p)) (\<lambda>_. emit (Log (g p)))) xs w =
     (Inr (), w\<lparr>history := history w @ progressEvents g xs (files w)\<rparr>)"
  by (induction xs arbitrary: w)
     (simp_all add: progressEvents_def ret_def andThen_def emit_def logDownloadInfo_def)

lemma progressEvents_quiet: "filter (isDownload \<circ> fst) (progressEvents g xs t) = []"
  by (induction xs) (simp_all add: progressEvents_def isDownload_def)

lemma getLatestDolphinAsset_anywhere:
  "getLatestDolphinAsset env ty w =
     (fst (getLatestDolphinAsset env ty w0),
      logged [ReleaseQuery ''project-slippi''
                (''Ishiiruka'' @ (if ty = PLAYBACK then ''-Playback'' else ''''))] w)"
  by (simp add: getLatestDolphinAsset_def getLatestReleaseData_def Let_def andThen_def emit_def
        throw_def ret_def logged_def split: sum.split option.split)

lemma downloadLatestDolphin_cases:
  assumes a: "fst (getLatestDolphinAsset env ty w) = Inr a"
      and f: "fault env (EnsureDir (userData env @ [''temp''])) = None"
      and m: "mkdirp env (userData env @ [''temp'']) (files w) = Inr t1"
  shows "downloadLatestDolphin env ty logDownloadInfo w =
     (let dir = userData env @ [''temp''];
          loc = dir @ [name a];
          url = browser_download_url a;
          h0 = history w @
               [(ReleaseQuery ''project-slippi''
                   (''Ishiiruka'' @ (if ty = PLAYBACK then ''-Playback'' else '''')), files w),
                (Fs (EnsureDir dir), files w)];
          h1 = h0 @ [(Log (''Downloading '' @ url @ '' to '' @ show_path loc), t1)]
      in if t1 loc \<noteq> None then
           (Inr loc, \<lparr>files = t1,
                      history = h0 @ [(Log (show_path loc @ '' already exists. Skipping download.''), t1)]\<rparr>)
         else if \<not> focusedWindow env then
           (Inr loc, \<lparr>files = t1,
                      history = h1 @ [(Log (''I dunno how we got here, but apparently there isn''
                                           @ [CHR 0x27] @ ''t a browser window /shrug''), t1)]\<rparr>)
         else (case snd (fetch env url) of
             Inl e \<Rightarrow>
               (Inl e, \<lparr>files = t1,
                        history = h1 @ (Download url, t1)
                          # progressEvents (\<lambda>p. ''Downloading... '' @ p @ ''%'') (fst (fetch env url)) t1\<rparr>)
           | Inr bytes \<Rightarrow>
               (Inr loc, \<lparr>files = t1(loc \<mapsto> newFile env bytes),
                          history = h1 @ (Download url, t1)
                            # progressEvents (\<lambda>p. ''Downloading... '' @ p @ ''%'') (fst (fetch env url)) t1
                            @ [(Log (''Successfully downloaded '' @ url @ '' to '' @ show_path loc),
                                t1(loc \<mapsto> newFile env bytes))]\<rparr>)))"
proof -
  have g: "getLatestDolphinAsset env ty w =
     (Inr a, logged [ReleaseQuery ''project-slippi''
                (''Ishiiruka'' @ (if ty = PLAYBACK then ''-Playback'' else ''''))] w)"
    using getLatestDolphinAsset_anywhere [of env ty w w] a by simp
  show ?thesis
    by (simp add: downloadLatestDolphin_def andThen_def g Let_def fs_ensureDir_def syscall_def
          emit_def ret_def throw_def getFiles_def setFiles_def fileExists_def logDownloadInfo_def
          download_def forEach_progress logged_def f m split: sum.split)
qed

lemma mkdirp_Inr_iff:
  "mkdirp env p t = Inr t1 \<longleftrightarrow> (\<forall>q. prefix q p \<longrightarrow> \<not> isFile (t q)) \<and> t1 = withDirs env p t"
  by (auto simp: mkdirp_def list_ex_iff in_set_prefixes)

lemma mkdirp_again:
  assumes "mkdirp env p t = Inr t1"
  shows "mkdirp env' p t1 = Inr t1"
proof -
  from assms have nf: "\<And>q. prefix q p \<Longrightarrow> \<not> isFile (t q)" and t1: "t1 = withDirs env p t"
    by (simp_all add: mkdirp_Inr_iff)
  have a: "\<And>q. prefix q p \<Longrightarrow> \<not> isFile (t1 q)"
    using nf by (simp add: t1 withDirs_def isFile_def newDir_def)
  have "\<And>q. prefix q p \<Longrightarrow> t1 q \<noteq> None"
    by (simp add: t1 withDirs_def)
  then have b: "withDirs env' p t1 = t1"
    by (auto simp: withDirs_def fun_eq_iff)
  from a b show ?thesis by (simp add: mkdirp_Inr_iff)
qed

lemma mkdirp_beside:
  assumes "mkdirp env p t = Inr t" and "\<not> prefix q p"
  shows "mkdirp env p (t(q \<mapsto> i)) = Inr (t(q \<mapsto> i))"
proof -
  from assms have nf: "\<And>r. prefix r p \<Longrightarrow> \<not> isFile (t r)" and t1: "t = withDirs env p t"
    by (simp_all add: mkdirp_Inr_iff)
  have ex: "\<And>r. prefix r p \<Longrightarrow> t r \<noteq> None"
  proof -
    fix r assume "prefix r p"
    then have "withDirs env p t r \<noteq> None" by (simp add: withDirs_def)
    with t1 show "t r \<noteq> None" by simp
  qed
  have a: "\<And>r. prefix r p \<Longrightarrow> \<not> isFile ((t(q \<mapsto> i)) r)"
    using nf assms(2) by auto
  have b: "withDirs env p (t(q \<mapsto> i)) = t(q \<mapsto> i)"
  proof (rule ext)
    fix r
    show "withDirs env p (t(q \<mapsto> i)) r = (t(q \<mapsto> i)) r"
    proof (cases "prefix r p")
      case True
      then have "t r \<noteq> None" by (rule ex)
      with True assms(2) show ?thesis by (auto simp: withDirs_def)
    next
      case False
      then show ?thesis by (simp add: withDirs_def)
    qed
  qed
  from a b show ?thesis by (simp add: mkdirp_Inr_iff)
qed

lemma downloadLatestDolphin_needs:
  assumes "fst (downloadLatestDolphin env ty logDownloadInfo w) = Inr p"
      and "fst (getLatestDolphinAsset env ty w) = Inr a"
  shows "fault env (EnsureDir (userData env @ [''temp''])) = None
       \<and> mkdirp env (userData env @ [''temp'']) (files w)
           = Inr (withDirs env (userData env @ [''temp'']) (files w))"
proof -
  have g: "getLatestDolphinAsset env ty w =
     (Inr a, logged [ReleaseQuery ''project-slippi''
                (''Ishiiruka'' @ (if ty = PLAYBACK then ''-Playback'' else []))] w)"
    using getLatestDolphinAsset_anywhere [of env ty w w] assms(2) by simp
  from assms(1) show ?thesis
    by (simp add: downloadLatestDolphin_def andThen_def g Let_def fs_ensureDir_def syscall_def
          emit_def ret_def throw_def getFiles_def logged_def mkdirp_def
          split: option.splits if_splits)
qed

lemma downloadLatestDolphin_cache_hit:
  assumes "fst (getLatestDolphinAsset env ty w) = Inr a"
      and "fault env (EnsureDir (userData env @ [''temp''])) = None"
      and "mkdirp env (userData env @ [''temp'']) (files w) = Inr t1"
      and "files w (userData env @ [''temp'', name a]) \<noteq> None"
  shows "downloadLatestDolphin env ty logDownloadInfo w =
           (Inr (userData env @ [''temp'', name a]),
            \<lparr>files = t1,
             history = history w @
               [(ReleaseQuery ''project-slippi''
                   (''Ishiiruka'' @ (if ty = PLAYBACK then ''-Playback'' else [])), files w),
                (Fs (EnsureDir (userData env @ [''temp''])), files w),
                (Log (show_path (userData env @ [''temp'', name a])
                      @ '' already exists. Skipping download.''), t1)]\<rparr>)"
proof -
  from assms(3) have "t1 = withDirs env (userData env @ [''temp'']) (files w)"
    by (simp add: mkdirp_Inr_iff)
  with assms(4) have "t1 (userData env @ [''temp'', name a]) \<noteq> None"
    by (simp add: withDirs_def)
  with downloadLatestDolphin_cases [OF assms(1-3)] show ?thesis
    by (simp add: Let_def)
qed

lemma downloadLatestDolphin_no_asset:
  assumes "fst (getLatestDolphinAsset env ty w) = Inl e"
  shows "downloadLatestDolphin env ty logDownloadInfo w =
           (Inl e, logged [ReleaseQuery ''project-slippi''
                     (''Ishiiruka'' @ (if ty = PLAYBACK then ''-Playback'' else []))] w)"
proof -
  have g: "getLatestDolphinAsset env ty w =
     (Inl e, logged [ReleaseQuery ''project-slippi''
                (''Ishiiruka'' @ (if ty = PLAYBACK then ''-Playback'' else []))] w)"
    using getLatestDolphinAsset_anywhere [of env ty w w] assms by simp
  show ?thesis
    by (simp add: downloadLatestDolphin_def andThen_def g)
qed

lemma downloadLatestDolphin_no_dir:
  assumes "fst (getLatestDolphinAsset env ty w) = Inr a"
      and "fault env (EnsureDir (userData env @ [''temp''])) \<noteq> None
           \<or> mkdirp env (userData env @ [''temp'']) (files w) = Inl e"
  shows "trace (snd (downloadLatestDolphin env ty logDownloadInfo w)) =
           trace w @ [ReleaseQuery ''project-slippi''
                        (''Ishiiruka'' @ (if ty = PLAYBACK then ''-Playback'' else [])),
                      Fs (EnsureDir (userData env @ [''temp'']))]"
proof -
  have g: "getLatestDolphinAsset env ty w =
     (Inr a, logged [ReleaseQuery ''project-slippi''
                (''Ishiiruka'' @ (if ty = PLAYBACK then ''-Playback'' else []))] w)"
    using getLatestDolphinAsset_anywhere [of env ty w w] assms(1) by simp
  from assms(2) show ?thesis
    by (auto simp: downloadLatestDolphin_def andThen_def g Let_def fs_ensureDir_def syscall_def
          emit_def ret_def throw_def getFiles_def logged_def trace_def
          split: option.splits)
qed

lemma downloadLatestDolphin_one_download:
  "downloads (snd (downloadLatestDolphin env ty logDownloadInfo w)) \<le> downloads w + 1"
proof (cases "fst (getLatestDolphinAsset env ty w)")
  case (Inl e)
  then show ?thesis
    by (simp add: downloadLatestDolphin_no_asset logged_def trace_def isDownload_def)
next
  case (Inr a)
  let ?dir = "userData env @ [''temp'']"
  show ?thesis
  proof (cases "fault env (EnsureDir ?dir) = None")
    case False
    with downloadLatestDolphin_no_dir [OF Inr, of undefined] show ?thesis
      by (simp add: isDownload_def)
  next
    case nofault: True
    show ?thesis
    proof (cases "mkdirp env ?dir (files w)")
      case bad: (Inl e)
      with downloadLatestDolphin_no_dir [OF Inr, of e] show ?thesis
        by (simp add: isDownload_def)
    next
      case ok: (Inr t1)
      note run = downloadLatestDolphin_cases [OF Inr nofault ok, unfolded Let_def]
      show ?thesis
        unfolding run
        by (simp add: trace_def isDownload_def filter_map progressEvents_quiet split: sum.split)
    qed
  qed
qed

lemma downloadLatestDolphin_cached:
  assumes "files w (userData env @ [''temp'', n]) \<noteq> None"
      and "\<And>a. fst (getLatestDolphinAsset env ty w) = Inr a \<Longrightarrow> name a = n"
  shows "downloads (snd (downloadLatestDolphin env ty logDownloadInfo w)) = downloads w"
proof (cases "fst (getLatestDolphinAsset env ty w)")
  case (Inl e)
  then show ?thesis
    by (simp add: downloadLatestDolphin_no_asset logged_def trace_def isDownload_def)
next
  case (Inr a)
  let ?dir = "userData env @ [''temp'']"
  from assms(2) [OF Inr] have n: "name a = n" .
  show ?thesis
  proof (cases "fault env (EnsureDir ?dir) = None")
    case False
    with downloadLatestDolphin_no_dir [OF Inr, of undefined] show ?thesis
      by (simp add: isDownload_def)
  next
    case nofault: True
    show ?thesis
    proof (cases "mkdirp env ?dir (files w)")
      case bad: (Inl e)
      with downloadLatestDolphin_no_dir [OF Inr, of e] show ?thesis
        by (simp add: isDownload_def)
    next
      case ok: (Inr t1)
      from assms(1) n have "files w (userData env @ [''temp'', name a]) \<noteq> None" by simp
      from downloadLatestDolphin_cache_hit [OF Inr nofault ok this] show ?thesis
        by (simp add: trace_def isDownload_def)
    qed
  qed
qed

text \<open>
  C6, as the code has it. Every call of \<open>downloadLatestDolphin\<close> queries the release
  metadata, and no call downloads more than once. When a first call has returned, it and
  a second call for an asset of the same name and the same cache directory (in
  surroundings that may otherwise differ) together download at most once. If moreover the
  first call found the file or had a focused window to download with, then a second call
  that resolves its asset and passes the directory check returns the same path and adds
  only the release query, the directory check and the "already exists" line: no download
  and no progress event. In any world where the file is in the cache, a call that gets
  past the directory check returns its path with those three entries added and nothing
  else.
\<close>

theorem downloadLatestDolphin_second_call:
  assumes first: "downloadLatestDolphin env ty logDownloadInfo w = (Inr p, w1)"
      and asset1: "fst (getLatestDolphinAsset env ty w) = Inr a"
      and same_name: "\<forall>a'. fst (getLatestDolphinAsset env' ty w1) = Inr a' \<longrightarrow> name a' = name a"
      and same_dir: "userData env' = userData env"
  shows "p = userData env @ [''temp'', name a]
       \<and> downloads (snd (downloadLatestDolphin env' ty logDownloadInfo w1)) \<le> downloads w + 1
       \<and> ((focusedWindow env \<or> files w p \<noteq> None)
            \<and> fst (getLatestDolphinAsset env' ty w1) = Inr a2
            \<and> fault env' (EnsureDir (userData env @ [''temp''])) = None \<longrightarrow>
            downloadLatestDolphin env' ty logDownloadInfo w1 =
              (Inr p,
               logged [ReleaseQuery ''project-slippi''
                         (''Ishiiruka'' @ (if ty = PLAYBACK then ''-Playback'' else [])),
                       Fs (EnsureDir (userData env @ [''temp''])),
                       Log (show_path p @ '' already exists. Skipping download.'')] w1))
       \<and> (\<forall>env0 w0. downloads (snd (downloadLatestDolphin env0 ty logDownloadInfo w0))
                       \<le> downloads w0 + 1)
       \<and> (\<forall>w0 a0 t0.
             fst (getLatestDolphinAsset env ty w0) = Inr a0
             \<and> fault env (EnsureDir (userData env @ [''temp''])) = None
             \<and> mkdirp env (userData env @ [''temp'']) (files w0) = Inr t0
             \<and> files w0 (userData env @ [''temp'', name a0]) \<noteq> None \<longrightarrow>
             downloadLatestDolphin env ty logDownloadInfo w0 =
               (Inr (userData env @ [''temp'', name a0]),
                \<lparr>files = t0,
                 history = history w0 @
                   [(ReleaseQuery ''project-slippi''
                       (''Ishiiruka'' @ (if ty = PLAYBACK then ''-Playback'' else [])), files w0),
                    (Fs (EnsureDir (userData env @ [''temp''])), files w0),
                    (Log (show_path (userData env @ [''temp'', name a0])
                          @ '' already exists. Skipping download.''), t0)]\<rparr>))"
proof -
  let ?dir = "userData env @ [''temp'']"
  let ?loc = "?dir @ [name a]"
  let ?t1 = "withDirs env ?dir (files w)"
  from first have "fst (downloadLatestDolphin env ty logDownloadInfo w) = Inr p" by simp
  from downloadLatestDolphin_needs [OF this asset1]
  have f: "fault env (EnsureDir ?dir) = None" and m: "mkdirp env ?dir (files w) = Inr ?t1"
    by simp_all
  note first_run = downloadLatestDolphin_cases [OF asset1 f m, unfolded Let_def]
  have np: "\<not> prefix ?loc ?dir" by (simp add: prefix_def)
  have loc_w: "?t1 ?loc = files w ?loc"
    using np by (simp add: withDirs_def)
  \<comment> \<open>The first call: the path, the files it leaves, the downloads it made.\<close>
  have one: "p = ?loc
             \<and> (files w1 = ?t1 \<or> (\<exists>i. files w1 = ?t1(?loc \<mapsto> i)))
             \<and> (focusedWindow env \<or> files w ?loc \<noteq> None \<longrightarrow> files w1 ?loc \<noteq> None)
             \<and> (downloads w1 = downloads w
                 \<or> downloads w1 = downloads w + 1 \<and> files w1 ?loc \<noteq> None)"
  proof (cases "?t1 ?loc \<noteq> None")
    case True
    with first_run first show ?thesis
      by (auto simp: trace_def isDownload_def)
  next
    case False
    with loc_w have absent: "files w ?loc = None" by simp
    show ?thesis
    proof (cases "focusedWindow env")
      case nowin: False
      with first_run first False absent show ?thesis
        by (auto simp: trace_def isDownload_def)
    next
      case win: True
      show ?thesis
      proof (cases "snd (fetch env (browser_download_url a))")
        case (Inl e)
        with first_run first False win show ?thesis by simp
      next
        case (Inr bytes)
        with first_run first False win have pl: "p = ?loc"
          and fl: "files w1 = ?t1(?loc \<mapsto> newFile env bytes)"
          and hi: "trace w1 = trace w @
             [ReleaseQuery ''project-slippi'' (''Ishiiruka'' @ (if ty = PLAYBACK then ''-Playback'' else [])),
              Fs (EnsureDir ?dir),
              Log (''Downloading '' @ browser_download_url a @ '' to '' @ show_path ?loc),
              Download (browser_download_url a)]
             @ map fst (progressEvents (\<lambda>p. ''Downloading... '' @ p @ ''%'')
                          (fst (fetch env (browser_download_url a))) ?t1)
             @ [Log (''Successfully downloaded '' @ browser_download_url a @ '' to '' @ show_path ?loc)]"
          by (auto simp: trace_def)
        from hi have "downloads w1 = downloads w + 1"
          by (simp add: isDownload_def filter_map progressEvents_quiet)
        with pl fl show ?thesis by auto
      qed
    qed
  qed
  then have p: "p = ?loc"
    and shape: "files w1 = ?t1 \<or> (\<exists>i. files w1 = ?t1(?loc \<mapsto> i))"
    and ex: "focusedWindow env \<or> files w ?loc \<noteq> None \<Longrightarrow> files w1 ?loc \<noteq> None"
    and cnt: "downloads w1 = downloads w \<or> downloads w1 = downloads w + 1 \<and> files w1 ?loc \<noteq> None"
    by simp_all
  have path: "p = userData env @ [''temp'', name a]"
    using p by simp
  \<comment> \<open>Both calls together.\<close>
  have single: "\<forall>env0 w0. downloads (snd (downloadLatestDolphin env0 ty logDownloadInfo w0))
                  \<le> downloads w0 + 1"
    by (intro allI downloadLatestDolphin_one_download)
  have total: "downloads (snd (downloadLatestDolphin env' ty logDownloadInfo w1)) \<le> downloads w + 1"
  proof -
    from cnt show ?thesis
    proof
      assume "downloads w1 = downloads w"
      with downloadLatestDolphin_one_download [of env' ty w1] show ?thesis by simp
    next
      assume c: "downloads w1 = downloads w + 1 \<and> files w1 ?loc \<noteq> None"
      then have "files w1 (userData env' @ [''temp'', name a]) \<noteq> None"
        by (simp add: same_dir)
      moreover have "\<And>a'. fst (getLatestDolphinAsset env' ty w1) = Inr a' \<Longrightarrow> name a' = name a"
        using same_name by blast
      ultimately have "downloads (snd (downloadLatestDolphin env' ty logDownloadInfo w1)) = downloads w1"
        by (rule downloadLatestDolphin_cached)
      with c show ?thesis by simp
    qed
  qed
  \<comment> \<open>The second call finds the directory and the file.\<close>
  have second: "(focusedWindow env \<or> files w p \<noteq> None)
            \<and> fst (getLatestDolphinAsset env' ty w1) = Inr a2
            \<and> fault env' (EnsureDir (userData env @ [''temp''])) = None \<longrightarrow>
            downloadLatestDolphin env' ty logDownloadInfo w1 =
              (Inr p,
               logged [ReleaseQuery ''project-slippi''
                         (''Ishiiruka'' @ (if ty = PLAYBACK then ''-Playback'' else [])),
                       Fs (EnsureDir (userData env @ [''temp''])),
                       Log (show_path p @ '' already exists. Skipping download.'')] w1)"
  proof (intro impI, elim conjE)
    assume served: "focusedWindow env \<or> files w p \<noteq> None"
      and asset2: "fst (getLatestDolphinAsset env' ty w1) = Inr a2"
      and nofault: "fault env' (EnsureDir (userData env @ [''temp''])) = None"
    from served have there: "files w1 ?loc \<noteq> None"
      by (intro ex) (simp add: p)
    from same_name asset2 have n2: "name a2 = name a" by blast
    have m1: "mkdirp env' ?dir ?t1 = Inr ?t1"
      by (rule mkdirp_again [OF m])
    have m2: "mkdirp env' (userData env' @ [''temp'']) (files w1) = Inr (files w1)"
      using shape m1 mkdirp_beside [OF m1 np] by (auto simp: same_dir)
    have f2: "fault env' (EnsureDir (userData env' @ [''temp''])) = None"
      using nofault by (simp add: same_dir)
    note second_run = downloadLatestDolphin_cases [OF asset2 f2 m2, unfolded Let_def]
    show "downloadLatestDolphin env' ty logDownloadInfo w1 =
           (Inr p,
            logged [ReleaseQuery ''project-slippi''
                      (''Ishiiruka'' @ (if ty = PLAYBACK then ''-Playback'' else [])),
                    Fs (EnsureDir (userData env @ [''temp''])),
                    Log (show_path p @ '' already exists. Skipping download.'')] w1)"
      using second_run there by (simp add: same_dir n2 p logged_def)
  qed
  have hit: "\<forall>w0 a0 t0.
             fst (getLatestDolphinAsset env ty w0) = Inr a0
             \<and> fault env (EnsureDir (userData env @ [''temp''])) = None
             \<and> mkdirp env (userData env @ [''temp'']) (files w0) = Inr t0
             \<and> files w0 (userData env @ [''temp'', name a0]) \<noteq> None \<longrightarrow>
             downloadLatestDolphin env ty logDownloadInfo w0 =
               (Inr (userData env @ [''temp'', name a0]),
                \<lparr>files = t0,
                 history = history w0 @
                   [(ReleaseQuery ''project-slippi''
                       (''Ishiiruka'' @ (if ty = PLAYBACK then ''-Playback'' else [])), files w0),
                    (Fs (EnsureDir (userData env @ [''temp''])), files w0),
                    (Log (show_path (userData env @ [''temp'', name a0])
                          @ '' already exists. Skipping download.''), t0)]\<rparr>)"
    by (intro allI impI, elim conjE, rule downloadLatestDolphin_cache_hit)
  show ?thesis
    by (intro conjI path total second single hit)
qed

theorem downloadLatestDolphin_second_call_witness:
  "downloadLatestDolphin (sampleEnv ''win32'') NETPLAY logDownloadInfo emptyWorld
     = (Inr [''d'', ''temp'', ''Win.zip''],
        snd (downloadLatestDolphin (sampleEnv ''win32'') NETPLAY logDownloadInfo emptyWorld))
   \<and> focusedWindow (sampleEnv ''win32'')
   \<and> fst (getLatestDolphinAsset (sampleEnv ''win32'') NETPLAY emptyWorld)
     = Inr \<lparr>name = ''Win.zip'', browser_download_url = ''u1''\<rparr>
   \<and> fst (getLatestDolphinAsset (sampleEnv ''win32'') NETPLAY
            (snd (downloadLatestDolphin (sampleEnv ''win32'') NETPLAY logDownloadInfo emptyWorld)))
     = Inr \<lparr>name = ''Win.zip'', browser_download_url = ''u1''\<rparr>
   \<and> fault (sampleEnv ''win32'') (EnsureDir [''d'', ''temp'']) = None
   \<and> downloadLatestDolphin (sampleEnv ''win32'') NETPLAY logDownloadInfo
        (snd (downloadLatestDolphin (sampleEnv ''win32'') NETPLAY logDownloadInfo emptyWorld))
     = (Inr [''d'', ''temp'', ''Win.zip''],
        logged [ReleaseQuery ''project-slippi'' ''Ishiiruka'',
                Fs (EnsureDir [''d'', ''temp'']),
                Log ''/d/temp/Win.zip already exists. Skipping download.'']
          (snd (downloadLatestDolphin (sampleEnv ''win32'') NETPLAY logDownloadInfo emptyWorld)))
   \<and> downloads (snd (downloadLatestDolphin (sampleEnv ''win32'') NETPLAY logDownloadInfo
             (snd (downloadLatestDolphin (sampleEnv ''win32'') NETPLAY logDownloadInfo emptyWorld))))
       \<le> 1
   \<and> downloads (snd (downloadLatestDolphin (sampleEnv ''win32'') NETPLAY logDownloadInfo emptyWorld)) = 1"
proof -
  let ?env = "sampleEnv ''win32''"
  let ?w1 = "snd (downloadLatestDolphin ?env NETPLAY logDownloadInfo emptyWorld)"
  let ?a = "\<lparr>name = ''Win.zip'', browser_download_url = ''u1''\<rparr>"
  have r: "fst (downloadLatestDolphin ?env NETPLAY logDownloadInfo emptyWorld)
             = Inr [''d'', ''temp'', ''Win.zip'']"
    by (simp add: run sample)
  then have first: "downloadLatestDolphin ?env NETPLAY logDownloadInfo emptyWorld
             = (Inr [''d'', ''temp'', ''Win.zip''], ?w1)"
    by (simp add: prod_eq_iff)
  have win: "focusedWindow ?env"
    by (simp add: sampleEnv_sel)
  have a1: "fst (getLatestDolphinAsset ?env NETPLAY emptyWorld) = Inr ?a"
    by (simp add: run sample)
  have a2: "fst (getLatestDolphinAsset ?env NETPLAY ?w1) = Inr ?a"
    using getLatestDolphinAsset_anywhere [of ?env NETPLAY ?w1 emptyWorld] a1 by simp
  then have same: "\<forall>a'. fst (getLatestDolphinAsset ?env NETPLAY ?w1) = Inr a' \<longrightarrow> name a' = name ?a"
    by simp
  have nf: "fault ?env (EnsureDir [''d'', ''temp'']) = None"
    by (simp add: sampleEnv_sel)
  have d1: "downloads ?w1 = 1"
    by (simp add: run sample isDownload_def)
  note T = downloadLatestDolphin_second_call [OF first a1 same refl, where ?a2.0 = ?a]
  have s2: "downloadLatestDolphin ?env NETPLAY logDownloadInfo ?w1
     = (Inr [''d'', ''temp'', ''Win.zip''],
        logged [ReleaseQuery ''project-slippi'' ''Ishiiruka'',
                Fs (EnsureDir [''d'', ''temp'']),
                Log ''/d/temp/Win.zip already exists. Skipping download.''] ?w1)"
    using conjunct1 [OF conjunct2 [OF conjunct2 [OF T]]] win a2 nf
    by (simp add: sampleEnv_sel show_path_def)
  have c: "downloads (snd (downloadLatestDolphin ?env NETPLAY logDownloadInfo ?w1)) \<le> 1"
    using conjunct1 [OF conjunct2 [OF T]] by (simp add: trace_def sampleWorld_sel)
  from first win a1 a2 nf s2 c d1 show ?thesis by (intro conjI)
qed

text \<open>
  C6 as stated fails in three ways. The second of two calls finds the file in the cache
  and still queries the release metadata over the network, so the two calls make three
  network requests (two queries and one download). When the first call had no focused
  window, it returns the path with nothing downloaded, and a second call that has a
  window downloads, with progress events. And when the transfer of the first call fails,
  the call throws with nothing in the cache, and the second call downloads again.
\<close>

theorem cache_hit_queries_network_counterexample:
  "files (snd (downloadLatestDolphin (sampleEnv ''win32'') NETPLAY logDownloadInfo emptyWorld))
     [''d'', ''temp'', ''Win.zip''] \<noteq> None
   \<and> trace (snd (downloadLatestDolphin (sampleEnv ''win32'') NETPLAY logDownloadInfo
               (snd (downloadLatestDolphin (sampleEnv ''win32'') NETPLAY logDownloadInfo emptyWorld))))
     = [ReleaseQuery ''project-slippi'' ''Ishiiruka'',
        Fs (EnsureDir [''d'', ''temp'']),
        Log ''Downloading u1 to /d/temp/Win.zip'',
        Download ''u1'',
        Progress ''50'', Log ''Downloading... 50%'',
        Progress ''100'', Log ''Downloading... 100%'',
        Log ''Successfully downloaded u1 to /d/temp/Win.zip'',
        ReleaseQuery ''project-slippi'' ''Ishiiruka'',
        Fs (EnsureDir [''d'', ''temp'']),
        Log ''/d/temp/Win.zip already exists. Skipping download.'']
   \<and> fst (downloadLatestDolphin ((sampleEnv ''win32'')\<lparr>focusedWindow := False\<rparr>) NETPLAY logDownloadInfo
            emptyWorld) = Inr [''d'', ''temp'', ''Win.zip'']
   \<and> fst (downloadLatestDolphin (sampleEnv ''win32'') NETPLAY logDownloadInfo
            (snd (downloadLatestDolphin ((sampleEnv ''win32'')\<lparr>focusedWindow := False\<rparr>) NETPLAY
                    logDownloadInfo emptyWorld))) = Inr [''d'', ''temp'', ''Win.zip'']
   \<and> trace (snd (downloadLatestDolphin (sampleEnv ''win32'') NETPLAY logDownloadInfo
               (snd (downloadLatestDolphin ((sampleEnv ''win32'')\<lparr>focusedWindow := False\<rparr>) NETPLAY
                       logDownloadInfo emptyWorld))))
     = [ReleaseQuery ''project-slippi'' ''Ishiiruka'',
        Fs (EnsureDir [''d'', ''temp'']),
        Log ''Downloading u1 to /d/temp/Win.zip'',
        Log (''I dunno how we got here, but apparently there isn'' @ [CHR 0x27]
             @ ''t a browser window /shrug''),
        ReleaseQuery ''project-slippi'' ''Ishiiruka'',
        Fs (EnsureDir [''d'', ''temp'']),
        Log ''Downloading u1 to /d/temp/Win.zip'',
        Download ''u1'',
        Progress ''50'', Log ''Downloading... 50%'',
        Progress ''100'', Log ''Downloading... 100%'',
        Log ''Successfully downloaded u1 to /d/temp/Win.zip'']
   \<and> fst (downloadLatestDolphin
            ((sampleEnv ''win32'')\<lparr>fetch := \<lambda>url. ([''50''], Inl (Error ''net::ERR_CONNECTION_RESET''))\<rparr>)
            NETPLAY logDownloadInfo emptyWorld) = Inl (Error ''net::ERR_CONNECTION_RESET'')
   \<and> trace (snd (downloadLatestDolphin (sampleEnv ''win32'') NETPLAY logDownloadInfo
               (snd (downloadLatestDolphin
                  ((sampleEnv ''win32'')\<lparr>fetch := \<lambda>url. ([''50''], Inl (Error ''net::ERR_CONNECTION_RESET''))\<rparr>)
                  NETPLAY logDownloadInfo emptyWorld))))
     = [ReleaseQuery ''project-slippi'' ''Ishiiruka'',
        Fs (EnsureDir [''d'', ''temp'']),
        Log ''Downloading u1 to /d/temp/Win.zip'',
        Download ''u1'',
        Progress ''50'', Log ''Downloading... 50%'',
        ReleaseQuery ''project-slippi'' ''Ishiiruka'',
        Fs (EnsureDir [''d'', ''temp'']),
        Log ''Downloading u1 to /d/temp/Win.zip'',
        Download ''u1'',
        Progress ''50'', Log ''Downloading... 50%'',
        Progress ''100'', Log ''Downloading... 100%'',
        Log ''Successfully downloaded u1 to /d/temp/Win.zip'']"
  by (simp add: run sample)

section \<open>User data across a darwin upgrade\<close>

lemma ensuresD: "ensures I m Q \<Longrightarrow> I (files w) \<Longrightarrow> m w = (Inr x, w') \<Longrightarrow> Q x (files w')"
  by (simp add: ensures_def)

lemma ensures_andThen:
  "ensures I m K \<Longrightarrow> (\<And>x. ensures (K x) (f x) Q) \<Longrightarrow> ensures I (andThen m f) Q"
  unfolding ensures_def andThen_def by (fastforce split: prod.splits sum.splits)

lemma ensures_ret: "(\<And>t. I t \<Longrightarrow> Q x t) \<Longrightarrow> ensures I (ret x) Q"
  by (simp add: ensures_def ret_def)

lemma ensures_never: "(\<And>t. \<not> I t) \<Longrightarrow> ensures I m Q"
  by (simp add: ensures_def)

lemma ensures_steps: "steps I m P J \<Longrightarrow> ensures I m (\<lambda>_. J)"
  unfolding ensures_def steps_def by (metis snd_conv)

lemma ensures_log: "(\<And>t. I t \<Longrightarrow> Q () t) \<Longrightarrow> ensures I (logDownloadInfo msg) Q"
  by (auto simp: ensures_def logDownloadInfo_def emit_def)

lemma ensures_fs_pathExists: "(\<And>t. I t \<Longrightarrow> Q (t p \<noteq> None) t) \<Longrightarrow> ensures I (fs_pathExists p) Q"
  by (auto simp: ensures_def prim_defs)

lemma ensures_fs_move:
  "(\<And>t. I t \<Longrightarrow> t s \<noteq> None \<Longrightarrow> withDirs env (butlast d) t d = None
         \<Longrightarrow> Q () (rename s d (withDirs env (butlast d) t)))
   \<Longrightarrow> ensures I (fs_move env s d) Q"
  by (auto simp: ensures_def prim_defs mkdirp_def split: option.splits if_splits)

lemma ensures_fs_remove:
  "(\<And>t. I t \<Longrightarrow> Q () (rmrf p t)) \<Longrightarrow> ensures I (fs_remove env p) Q"
  by (auto simp: ensures_def prim_defs split: option.splits if_splits)

lemma ensures_extractDmg:
  "(\<And>t img. I t \<Longrightarrow> Q () (overlay d img (withDirs env d t))) \<Longrightarrow> ensures I (extractDmg env a d) Q"
  by (auto simp: ensures_def prim_defs mkdirp_def split: option.splits if_splits sum.splits node.splits)

lemma ensures_readdirCleanup:
  "(\<And>t. I t \<Longrightarrow> Q () t \<and> Q () (removeExtras env d t))
   \<Longrightarrow> ensures I (readdirCleanup env logDownloadInfo d) Q"
  by (auto simp: ensures_def prim_defs split: option.splits if_splits)

lemma steps_fs_chmod_inv:
  "(\<And>t i. I t \<Longrightarrow> t p = Some i \<Longrightarrow> I (t(p \<mapsto> i\<lparr>mode := m\<rparr>)))
   \<Longrightarrow> steps I (fs_chmod env p m) (\<lambda>_. True) I"
  by (auto simp: steps_def prim_defs split: prim_splits)

lemma steps_fs_chown_inv:
  "(\<And>t i. I t \<Longrightarrow> t p = Some i \<Longrightarrow> I (t(p \<mapsto> i\<lparr>uid := u, gid := g\<rparr>)))
   \<Longrightarrow> steps I (fs_chown env p u g) (\<lambda>_. True) I"
  by (auto simp: steps_def prim_defs split: prim_splits)

lemma not_prefix_below [simp]: "\<not> prefix (d @ x # r) d"
  using prefix_length_le by fastforce

lemma withDirs_elsewhere: "\<not> prefix q p \<Longrightarrow> withDirs env p t q = t q"
  by (simp add: withDirs_def)

lemma overlay_elsewhere: "\<not> prefix d q \<Longrightarrow> overlay d img t q = t q"
  by (simp add: overlay_def relativeTo_def)

lemma removeExtras_elsewhere: "\<not> prefix d q \<Longrightarrow> removeExtras env d t q = t q"
  by (simp add: removeExtras_def relativeTo_def)

lemma rename_moved: "rename s d t (d @ r) = t (s @ r)"
  by (simp add: rename_def relativeTo_def)

lemma rename_moved_below: "rename s (d @ x) t (d @ x @ r) = t (s @ r)"
  using rename_moved [of s "d @ x" t r] by simp

lemma rmrf_elsewhere: "\<not> prefix p q \<Longrightarrow> rmrf p t q = t q"
  by (simp add: rmrf_def)

lemma installDarwin_keeps_user:
  fixes d :: path and n :: string and t0 :: tree
  defines "root \<equiv> d @ [n]"
  defines "backup \<equiv> d @ [n @ ''_old'']"
  defines "inner \<equiv> [''Slippi Dolphin.app'', ''Contents'', ''Resources'', ''User'']"
  defines "aside \<equiv> (\<lambda>t. \<forall>q. t (backup @ inner @ q) = t0 (root @ inner @ q))"
  assumes inst: "t0 (dolphinResourcesPath root) \<noteq> None"
      and usr: "t0 (root @ inner) \<noteq> None"
  shows "ensures (\<lambda>t. t = t0) (installDarwin env ty a logDownloadInfo root)
           (\<lambda>_ t'. (\<forall>q. t' (root @ inner @ q) = t0 (root @ inner @ q)) \<and> nothingAt backup t')"
proof -
  have bl: "backupLocation root = backup"
    by (simp add: root_def backup_def)
  have n1: "\<And>r. \<not> prefix (root @ r) (butlast backup)"
    by (simp add: root_def backup_def butlast_append)
  have n2: "\<And>r. \<not> prefix (backup @ r) root"
    by (simp add: root_def backup_def)
  have n3: "\<And>r. \<not> prefix root (backup @ r)"
    by (simp add: root_def backup_def)
  have n4: "\<And>r. \<not> prefix backup (root @ r)"
    by (simp add: root_def backup_def)
  have n5: "\<And>q. \<not> prefix (backup @ inner @ q) (butlast (root @ inner))"
    by (simp add: root_def backup_def inner_def butlast_append)
  have n6: "\<And>r s. root @ s \<noteq> backup @ r"
    by (simp add: root_def backup_def)
  have log: "\<And>msg I. ensures I (logDownloadInfo msg) (\<lambda>_. I)"
    by (rule ensures_log)
  have move: "ensures (\<lambda>t. t = t0) (fs_move env root backup) (\<lambda>_. aside)"
    by (rule ensures_fs_move)
       (simp add: aside_def rename_moved withDirs_elsewhere n1)
  have unpack: "ensures aside (extractDmg env a root) (\<lambda>_. aside)"
    by (rule ensures_extractDmg)
       (simp add: aside_def overlay_elsewhere withDirs_elsewhere n2 n3)
  have cleanup: "ensures aside (readdirCleanup env logDownloadInfo root) (\<lambda>_. aside)"
    by (rule ensures_readdirCleanup)
       (simp add: aside_def removeExtras_elsewhere n3)
  have stage: "ensures (\<lambda>t. t = t0) (darwinStage env a logDownloadInfo root)
                 (\<lambda>alreadyInstalled t. alreadyInstalled \<and> aside t)"
    unfolding darwinStage_def bl
  proof (rule ensures_andThen [where K = "\<lambda>ai t. ai \<and> t = t0"])
    show "ensures (\<lambda>t. t = t0) (fs_pathExists (dolphinResourcesPath root)) (\<lambda>ai t. ai \<and> t = t0)"
      by (rule ensures_fs_pathExists) (simp add: inst)
  next
    fix ai
    show "ensures (\<lambda>t. ai \<and> t = t0)
       (andThen
         (if ai
          then andThen (logDownloadInfo (show_path (dolphinResourcesPath root) @ '' already exists. Moving...''))
                 (\<lambda>_. fs_move env root backup)
          else ret ())
         (\<lambda>_. andThen (logDownloadInfo (''Extracting to: '' @ show_path root))
                (\<lambda>_. andThen (extractDmg env a root)
                       (\<lambda>_. andThen (readdirCleanup env logDownloadInfo root) (\<lambda>_. ret ai)))))
       (\<lambda>alreadyInstalled t. alreadyInstalled \<and> aside t)"
    proof (cases ai)
      case False
      then show ?thesis by (simp add: ensures_never)
    next
      case True
      then have e: "ai = True" by simp
      show ?thesis
        unfolding e if_True simp_thms
        by (intro ensures_andThen [where K = "\<lambda>_. aside"] ensures_andThen [OF log move]
              log unpack cleanup ensures_ret) simp
    qed
  qed
  have perms: "ensures aside (darwinFixPermissions env ty logDownloadInfo root) (\<lambda>_. aside)"
  proof (rule ensures_steps)
    show "steps aside (darwinFixPermissions env ty logDownloadInfo root) (\<lambda>_. True) aside"
      unfolding darwinFixPermissions_def darwinChmodChown_def
      by (intro steps_tryCatch_inv steps_andThen_inv steps_fs_chmod_inv steps_fs_chown_inv steps_log_inv)
         (simp_all add: aside_def binaryLocation_def n6 n6 [of "[_]", simplified] n6 [symmetric])
  qed
  have old: "dolphinResourcesPath backup @ [''User''] = backup @ inner"
    and new: "dolphinResourcesPath root @ [''User''] = root @ inner"
    by (simp_all add: dolphinResourcesPath_def inner_def)
  have restore: "ensures aside
       (fs_move env (backup @ inner) (root @ inner))
       (\<lambda>_ t. \<forall>q. t (root @ inner @ q) = t0 (root @ inner @ q))"
    by (rule ensures_fs_move)
       (simp add: aside_def rename_moved_below withDirs_elsewhere n5)
  have gone: "ensures (\<lambda>t. \<forall>q. t (root @ inner @ q) = t0 (root @ inner @ q))
       (fs_remove env backup)
       (\<lambda>_ t'. (\<forall>q. t' (root @ inner @ q) = t0 (root @ inner @ q)) \<and> nothingAt backup t')"
    by (rule ensures_fs_remove)
       (simp add: rmrf_elsewhere nothingAt_rmrf_self n4)
  have migrate: "ensures aside (darwinMigrate env logDownloadInfo root True)
       (\<lambda>_ t'. (\<forall>q. t' (root @ inner @ q) = t0 (root @ inner @ q)) \<and> nothingAt backup t')"
    unfolding darwinMigrate_def Let_def bl old new if_True
  proof (rule ensures_andThen [where K = "\<lambda>oldExists t. oldExists \<and> aside t"])
    show "ensures aside (fs_pathExists (backup @ inner)) (\<lambda>oldExists t. oldExists \<and> aside t)"
    proof (rule ensures_fs_pathExists)
      fix t assume "aside t"
      then have "t (backup @ inner @ []) = t0 (root @ inner @ [])"
        unfolding aside_def by blast
      with usr \<open>aside t\<close> show "t (backup @ inner) \<noteq> None \<and> aside t" by simp
    qed
  next
    fix oldExists
    show "ensures (\<lambda>t. oldExists \<and> aside t)
       (andThen
         (if oldExists
          then andThen (logDownloadInfo ''moving User folder...'')
                 (\<lambda>_. fs_move env (backup @ inner) (root @ inner))
          else logDownloadInfo ''no old User folder to move'')
         (\<lambda>_. fs_remove env backup))
       (\<lambda>_ t'. (\<forall>q. t' (root @ inner @ q) = t0 (root @ inner @ q)) \<and> nothingAt backup t')"
    proof (cases oldExists)
      case False
      then show ?thesis by (simp add: ensures_never)
    next
      case True
      then have e: "oldExists = True" by simp
      show ?thesis
        unfolding e if_True simp_thms
        by (intro ensures_andThen [OF _ gone] ensures_andThen [OF log restore])
    qed
  qed
  show ?thesis
    unfolding installDarwin_def
  proof (rule ensures_andThen [OF stage])
    fix ai
    show "ensures (\<lambda>t. ai \<and> aside t)
       (andThen (darwinFixPermissions env ty logDownloadInfo root)
          (\<lambda>_. darwinMigrate env logDownloadInfo root ai))
       (\<lambda>_ t'. (\<forall>q. t' (root @ inner @ q) = t0 (root @ inner @ q)) \<and> nothingAt backup t')"
    proof (cases ai)
      case False
      then show ?thesis by (simp add: ensures_never)
    next
      case True
      then have e: "ai = True" by simp
      show ?thesis
        unfolding e simp_thms
        by (rule ensures_andThen [OF perms migrate])
    qed
  qed
qed

text \<open>
  C1. On darwin, when an installation exists (its \<^verbatim>\<open>Resources\<close> directory does) with a
  \<^verbatim>\<open>User\<close> folder in it, and \<open>installDolphin\<close> without clean install returns
  normally, then everything at and below the \<^verbatim>\<open>User\<close> folder is afterwards at the same
  path of the new installation exactly as it was, and nothing exists at or below the
  backup directory \<^verbatim>\<open><root>_old\<close>.
\<close>

theorem darwin_install_preserves_user_data:
  assumes darwin: "platform env = ''darwin''"
      and installed: "files w (dolphinResourcesPath (userData env @ [typeName env ty])) \<noteq> None"
      and user: "files w (dolphinResourcesPath (userData env @ [typeName env ty]) @ [''User'']) \<noteq> None"
      and ok: "fst (installDolphin env ty assetPath logDownloadInfo False w) = Inr ()"
  shows "(\<forall>q. files (snd (installDolphin env ty assetPath logDownloadInfo False w))
                 ((dolphinResourcesPath (userData env @ [typeName env ty]) @ [''User'']) @ q)
               = files w ((dolphinResourcesPath (userData env @ [typeName env ty]) @ [''User'']) @ q))
       \<and> nothingAt (backupLocation (userData env @ [typeName env ty]))
             (files (snd (installDolphin env ty assetPath logDownloadInfo False w)))"
proof -
  let ?root = "userData env @ [typeName env ty]"
  let ?inner = "[''Slippi Dolphin.app'', ''Contents'', ''Resources'', ''User'']"
  let ?w' = "snd (installDolphin env ty assetPath logDownloadInfo False w)"
  have eq: "installDolphin env ty assetPath logDownloadInfo False w
               = installDarwin env ty assetPath logDownloadInfo ?root w"
    by (simp add: installDolphin_def Let_def andThen_ret_left darwin)
  with ok have fin: "installDarwin env ty assetPath logDownloadInfo ?root w = (Inr (), ?w')"
    by (simp add: prod_eq_iff)
  have u: "files w (?root @ ?inner) \<noteq> None"
    using user by (simp add: dolphinResourcesPath_def)
  from ensuresD [OF installDarwin_keeps_user [OF installed u] refl fin]
  have "(\<forall>q. files ?w' (?root @ ?inner @ q) = files w (?root @ ?inner @ q))
        \<and> nothingAt (userData env @ [typeName env ty @ ''_old'']) (files ?w')" .
  then show ?thesis
    by (simp add: dolphinResourcesPath_def)
qed

theorem darwin_install_preserves_user_data_witness:
  "platform (sampleEnv ''darwin'') = ''darwin''
   \<and> files installedWorld [''d'', ''netplay'', ''Slippi Dolphin.app'', ''Contents'', ''Resources'', ''User'']
       \<noteq> None
   \<and> fst (installDolphin (sampleEnv ''darwin'') NETPLAY [''a.dmg''] logDownloadInfo False installedWorld) = Inr ()
   \<and> files (snd (installDolphin (sampleEnv ''darwin'') NETPLAY [''a.dmg''] logDownloadInfo False installedWorld))
        [''d'', ''netplay'', ''Slippi Dolphin.app'', ''Contents'', ''Resources'', ''User'', ''cfg'']
       = Some (sampleFile ''mine'')
   \<and> files (snd (installDolphin (sampleEnv ''darwin'') NETPLAY [''a.dmg''] logDownloadInfo False installedWorld))
        [''d'', ''netplay_old''] = None"
proof -
  let ?env = "sampleEnv ''darwin''"
  let ?w' = "snd (installDolphin ?env NETPLAY [''a.dmg''] logDownloadInfo False installedWorld)"
  have p: "platform ?env = ''darwin''"
    by (simp add: sampleEnv_sel)
  have i: "files installedWorld (dolphinResourcesPath (userData ?env @ [typeName ?env NETPLAY])) \<noteq> None"
    by (simp add: sampleEnv_sel dolphinResourcesPath_def installedWorld_files)
  have u: "files installedWorld (dolphinResourcesPath (userData ?env @ [typeName ?env NETPLAY]) @ [''User''])
             \<noteq> None"
    by (simp add: sampleEnv_sel dolphinResourcesPath_def installedWorld_files)
  have ok: "fst (installDolphin ?env NETPLAY [''a.dmg''] logDownloadInfo False installedWorld) = Inr ()"
    by (simp add: run sample)
  note T = darwin_install_preserves_user_data [OF p i u ok]
  from spec [OF conjunct1 [OF T], of "[''cfg'']"]
  have a: "files ?w' [''d'', ''netplay'', ''Slippi Dolphin.app'', ''Contents'', ''Resources'', ''User'', ''cfg'']
             = Some (sampleFile ''mine'')"
    by (simp add: sampleEnv_sel dolphinResourcesPath_def installedWorld_files)
  from conjunct2 [OF T]
  have "nothingAt [''d'', ''netplay_old''] (files ?w')"
    by (simp add: sampleEnv_sel backupLocation_def)
  then have b: "files ?w' [''d'', ''netplay_old''] = None"
    by (simp add: nothingAt_def)
  from u have u': "files installedWorld
      [''d'', ''netplay'', ''Slippi Dolphin.app'', ''Contents'', ''Resources'', ''User''] \<noteq> None"
    by (simp add: sampleEnv_sel dolphinResourcesPath_def)
  from p u' ok a b show ?thesis by blast
qed

end
